theory Spec2Isabelle
  imports Main "HOL-Library.Char_ord" "HOL-Library.List_Lexorder"
begin

section \<open>Strings and JavaScript helpers\<close>

text \<open>
  Strings are character lists and are taken to be ASCII: \<open>toLowerCase\<close> maps the letters
  \<open>A\<close> to \<open>Z\<close> to \<open>a\<close> to \<open>z\<close> and leaves every other character alone.
\<close>

definition lowerChar :: "char \<Rightarrow> char" where
  "lowerChar c =
     (let n = (of_char c :: nat) in if 65 \<le> n \<and> n \<le> 90 then char_of (n + 32) else c)"

definition toLowerCase :: "string \<Rightarrow> string" where
  "toLowerCase s = map lowerChar s"

text \<open>
  The remainder operator \<open>%\<close> on integers: the sign follows the dividend, and a zero
  divisor gives \<open>NaN\<close>, which is \<open>None\<close> here.
\<close>

definition jsRem :: "int \<Rightarrow> int \<Rightarrow> int option" where
  "jsRem a b = (if b = 0 then None else Some (sgn a * (\<bar>a\<bar> mod \<bar>b\<bar>)))"

section \<open>Timers\<close>

text \<open>
  \<open>setTimeout\<close> and \<open>clearTimeout\<close> act on the environment's list of pending timers, kept
  in the order of registration. A timer has a handle, the time at which it is due and the
  callback it will run, named by a constructor of the controller's callback type.
\<close>

record 'c timer =
  tid :: nat
  due :: nat
  cb :: 'c

section \<open>Desktop navigation (DesktopNavigation.tsx)\<close>

record DesktopNavItemData =
  nav_id :: string
  nav_label :: string
  hasDropdown :: bool
  nav_url :: "string option"

datatype item_type = Model | Link

record DropdownItem =
  dd_type :: item_type
  dd_label :: string
  dd_url :: "string option"
  dd_image :: "string option"
  dd_group :: "int option"

text \<open>
  The elements the controller asks to focus: an element found by its DOM id, the first
  menu item of the panel that belongs to a label (\<open>focusFirstItem\<close> on the element with
  \<open>getDropdownId label\<close>), an entry of \<open>itemRefs.current\<close>, or an entry of the panel's
  \<open>focusableElements\<close>.
\<close>

datatype focus_target =
    ElementById string
  | FirstMenuItemOf string
  | ItemRef nat
  | FocusableElement nat

text \<open>
  The callbacks the controller hands to \<open>setTimeout\<close>. \<open>CloseIfNotHovering n d\<close> is the
  arrow function of \<open>startCloseTimer\<close>; \<open>n\<close> and \<open>d\<close> are the values of
  \<open>isHoveringNavItem\<close> and \<open>isHoveringDropdown\<close> it closes over. \<open>NavigateAndRefocus\<close> and
  \<open>Refocus\<close> are the two delayed functions of \<open>handleDropdownItemClick\<close>.
\<close>

datatype callback =
    CloseIfNotHovering bool bool
  | FocusLater focus_target
  | NavigateAndRefocus string string
  | Refocus string

record desktop =
  activeDropdown :: string
  isHoveringNavItem :: bool
  isHoveringDropdown :: bool
  mouseLeaveTimeoutRef :: "nat option"
  timers :: "callback timer list"
  nextTimerId :: nat
  now :: nat
  navigated :: "string list"
  focusRequests :: "focus_target list"
  mounted :: bool

definition initialDesktop :: desktop where
  "initialDesktop =
     \<lparr>activeDropdown = [], isHoveringNavItem = False, isHoveringDropdown = False,
      mouseLeaveTimeoutRef = None, timers = [], nextTimerId = 1, now = 0,
      navigated = [], focusRequests = [], mounted = True\<rparr>"

definition setTimeout :: "callback \<Rightarrow> nat \<Rightarrow> desktop \<Rightarrow> nat \<times> desktop" where
  "setTimeout f delay s =
     (nextTimerId s,
      s\<lparr>timers := timers s @ [\<lparr>tid = nextTimerId s, due = now s + delay, cb = f\<rparr>],
        nextTimerId := Suc (nextTimerId s)\<rparr>)"

definition clearTimeout :: "nat option \<Rightarrow> desktop \<Rightarrow> desktop" where
  "clearTimeout h s =
     (case h of None \<Rightarrow> s
      | Some i \<Rightarrow> s\<lparr>timers := filter (\<lambda>t. tid t \<noteq> i) (timers s)\<rparr>)"

definition onNavigate :: "string \<Rightarrow> desktop \<Rightarrow> desktop" where
  "onNavigate u s = s\<lparr>navigated := navigated s @ [u]\<rparr>"

definition focus :: "focus_target \<Rightarrow> desktop \<Rightarrow> desktop" where
  "focus t s = s\<lparr>focusRequests := focusRequests s @ [t]\<rparr>"

text \<open>
  \<open>startCloseTimer\<close> is memoised on \<open>[isHoveringNavItem, isHoveringDropdown]\<close>: the function
  it schedules reads these two variables of the render in which the handler was created,
  that is, their values before the \<open>setState\<close> calls of the running handler take effect.
  The handlers below pass those values in.
\<close>

definition startCloseTimer :: "bool \<Rightarrow> bool \<Rightarrow> desktop \<Rightarrow> desktop" where
  "startCloseTimer capNav capDrop s =
     (let s1 = clearTimeout (mouseLeaveTimeoutRef s) s;
          (h, s2) = setTimeout (CloseIfNotHovering capNav capDrop) 250 s1
      in s2\<lparr>mouseLeaveTimeoutRef := Some h\<rparr>)"

definition clearCloseTimer :: "desktop \<Rightarrow> desktop" where
  "clearCloseTimer s = clearTimeout (mouseLeaveTimeoutRef s) s"

definition handleItemHover :: "DesktopNavItemData \<Rightarrow> desktop \<Rightarrow> desktop" where
  "handleItemHover item s =
     (let s1 = clearCloseTimer (s\<lparr>isHoveringNavItem := True\<rparr>);
          dropdownKey = (if hasDropdown item then toLowerCase (nav_label item) else [])
      in s1\<lparr>activeDropdown := dropdownKey\<rparr>)"

definition handleItemLeave :: "desktop \<Rightarrow> desktop" where
  "handleItemLeave s =
     startCloseTimer (isHoveringNavItem s) (isHoveringDropdown s)
       (s\<lparr>isHoveringNavItem := False\<rparr>)"

definition handleItemFocus :: "DesktopNavItemData \<Rightarrow> desktop \<Rightarrow> desktop" where
  "handleItemFocus item s = clearCloseTimer (s\<lparr>isHoveringNavItem := True\<rparr>)"

definition handleItemBlur :: "desktop \<Rightarrow> desktop" where
  "handleItemBlur s =
     startCloseTimer (isHoveringNavItem s) (isHoveringDropdown s)
       (s\<lparr>isHoveringNavItem := False\<rparr>)"

definition handleDropdownEnter :: "desktop \<Rightarrow> desktop" where
  "handleDropdownEnter s = clearCloseTimer (s\<lparr>isHoveringDropdown := True\<rparr>)"

definition handleDropdownLeave :: "desktop \<Rightarrow> desktop" where
  "handleDropdownLeave s =
     startCloseTimer (isHoveringNavItem s) (isHoveringDropdown s)
       (s\<lparr>isHoveringDropdown := False\<rparr>)"

text \<open>
  \<open>desktopMenuItems.find(item => item.label.toLowerCase() === focusLabel.toLowerCase())\<close>.
\<close>

definition findByLabel :: "DesktopNavItemData list \<Rightarrow> string \<Rightarrow> DesktopNavItemData option" where
  "findByLabel items l = find (\<lambda>i. toLowerCase (nav_label i) = toLowerCase l) items"

text \<open>
  \<open>returnFocusToLabel || currentActive\<close> takes \<open>currentActive\<close> when the argument is absent
  or the empty string.
\<close>

definition closeDropdown :: "DesktopNavItemData list \<Rightarrow> string option \<Rightarrow> desktop \<Rightarrow> desktop" where
  "closeDropdown items returnFocusToLabel s =
     (let currentActive = activeDropdown s in
      if currentActive = [] then s
      else
        let s1 = s\<lparr>activeDropdown := []\<rparr>;
            focusLabel = (case returnFocusToLabel of
                            None \<Rightarrow> currentActive
                          | Some l \<Rightarrow> if l = [] then currentActive else l)
        in case findByLabel items focusLabel of
             None \<Rightarrow> s1
           | Some triggerItem \<Rightarrow>
               snd (setTimeout (FocusLater (ElementById (nav_id triggerItem))) 50 s1))"

definition navigateIfReal :: "string option \<Rightarrow> desktop \<Rightarrow> desktop" where
  "navigateIfReal u s =
     (case u of None \<Rightarrow> s
      | Some v \<Rightarrow> if v \<noteq> [] \<and> v \<noteq> ''#'' then onNavigate v s else s)"

definition handleDesktopItemClick :: "DesktopNavItemData list \<Rightarrow> DesktopNavItemData \<Rightarrow> desktop \<Rightarrow> desktop" where
  "handleDesktopItemClick items item s =
     (let lowerLabel = toLowerCase (nav_label item) in
      if \<not> hasDropdown item then navigateIfReal (nav_url item) (closeDropdown items None s)
      else clearCloseTimer
             (s\<lparr>activeDropdown := (if activeDropdown s = lowerLabel then [] else lowerLabel)\<rparr>))"

definition handleDropdownItemClick :: "DropdownItem \<Rightarrow> desktop \<Rightarrow> desktop" where
  "handleDropdownItemClick item s =
     (let triggerLabel = activeDropdown s;
          s1 = s\<lparr>activeDropdown := []\<rparr>;
          focusOnly = snd (setTimeout (Refocus triggerLabel) 600 s1)
      in case dd_url item of
           None \<Rightarrow> focusOnly
         | Some u \<Rightarrow>
             if u \<noteq> [] \<and> u \<noteq> ''#''
             then snd (setTimeout (NavigateAndRefocus u triggerLabel) 600 s1)
             else focusOnly)"

subsection \<open>Keyboard handlers\<close>

datatype key =
  Enter | Space | ArrowDown | ArrowUp | ArrowLeft | ArrowRight | Escape | Tab | Home | End
  | OtherKey

text \<open>
  \<open>desktopMenuItems.findIndex(i => i.id === item.id)\<close>: the first position whose id is
  the item's, and \<open>-1\<close> when there is none.
\<close>

fun findIndexFrom :: "int \<Rightarrow> ('a \<Rightarrow> bool) \<Rightarrow> 'a list \<Rightarrow> int" where
  "findIndexFrom k P [] = -1"
| "findIndexFrom k P (x # xs) = (if P x then k else findIndexFrom (k + 1) P xs)"

definition findIndex :: "('a \<Rightarrow> bool) \<Rightarrow> 'a list \<Rightarrow> int" where
  "findIndex P xs = findIndexFrom 0 P xs"

text \<open>
  Reading an array of \<open>n\<close> elements at a computed index: an element inside the range, and
  \<open>undefined\<close> (here \<open>None\<close>) outside of it or at \<open>NaN\<close>.
\<close>

definition elementAt :: "nat \<Rightarrow> int option \<Rightarrow> nat option" where
  "elementAt n idx =
     (case idx of None \<Rightarrow> None
      | Some i \<Rightarrow> if 0 \<le> i \<and> i < int n then Some (nat i) else None)"

text \<open>
  \<open>if (nextFocusTarget) setTimeout(() => nextFocusTarget?.focus(), 0)\<close>.
\<close>

definition focusSoon :: "focus_target option \<Rightarrow> desktop \<Rightarrow> desktop" where
  "focusSoon target s =
     (case target of None \<Rightarrow> s | Some t \<Rightarrow> snd (setTimeout (FocusLater t) 0 s))"

text \<open>
  The index computed by the \<open>ArrowLeft\<close> and \<open>ArrowRight\<close> cases, before it is used to
  read \<open>itemRefs.current\<close>.
\<close>

definition prevIndex :: "DesktopNavItemData list \<Rightarrow> DesktopNavItemData \<Rightarrow> int option" where
  "prevIndex items item =
     jsRem (findIndex (\<lambda>i. nav_id i = nav_id item) items - 1 + int (length items))
       (int (length items))"

definition nextIndex :: "DesktopNavItemData list \<Rightarrow> DesktopNavItemData \<Rightarrow> int option" where
  "nextIndex items item =
     jsRem (findIndex (\<lambda>i. nav_id i = nav_id item) items + 1) (int (length items))"

text \<open>
  The element that \<open>ArrowLeft\<close> and \<open>ArrowRight\<close> choose as \<open>nextFocusTarget\<close>;
  \<open>itemRefs.current\<close> has one entry for each menu item, in order.
\<close>

definition arrowTarget :: "DesktopNavItemData list \<Rightarrow> DesktopNavItemData \<Rightarrow> key \<Rightarrow> focus_target option" where
  "arrowTarget items item k =
     (if k = ArrowLeft then map_option ItemRef (elementAt (length items) (prevIndex items item))
      else if k = ArrowRight then map_option ItemRef (elementAt (length items) (nextIndex items item))
      else None)"

definition handleItemKeyDown :: "DesktopNavItemData list \<Rightarrow> DesktopNavItemData \<Rightarrow> key \<Rightarrow> desktop \<Rightarrow> desktop" where
  "handleItemKeyDown items item k s =
     (let lowerLabel = toLowerCase (nav_label item);
          currentTarget = ElementById (nav_id item)
      in if k = Enter \<or> k = Space then
           (if hasDropdown item then
              (let newState = (if activeDropdown s = lowerLabel then [] else lowerLabel);
                   s1 = clearCloseTimer (s\<lparr>activeDropdown := newState\<rparr>)
               in if newState \<noteq> []
                  then snd (setTimeout (FocusLater (FirstMenuItemOf (nav_label item))) 50 s1)
                  else focusSoon (Some currentTarget) s1)
            else navigateIfReal (nav_url item) s)
         else if k = ArrowDown then
           (if hasDropdown item then
              (if activeDropdown s \<noteq> lowerLabel
               then snd (setTimeout (FocusLater (FirstMenuItemOf (nav_label item))) 50
                          (clearCloseTimer (s\<lparr>activeDropdown := lowerLabel\<rparr>)))
               else focus (FirstMenuItemOf (nav_label item)) s)
            else s)
         else if k = ArrowLeft \<or> k = ArrowRight then focusSoon (arrowTarget items item k) s
         else if k = Escape then
           (if activeDropdown s \<noteq> []
            then focusSoon (Some currentTarget) (closeDropdown items (Some (nav_label item)) s)
            else s)
         else if k = Tab then
           (if activeDropdown s \<noteq> [] then closeDropdown items None s else s)
         else s)"

text \<open>
  Keys inside the open panel. The panel's focusable elements are found by a DOM query; the
  handler receives their number and the position of \<open>document.activeElement\<close> among them
  (\<open>-1\<close> when it is none of them).
\<close>

definition handleDropdownKeyDown :: "DesktopNavItemData list \<Rightarrow> nat \<Rightarrow> int \<Rightarrow> key \<Rightarrow> desktop \<Rightarrow> desktop" where
  "handleDropdownKeyDown items n currentIndex k s =
     (if activeDropdown s = [] then s
      else if n = 0 then s
      else if k = ArrowDown \<or> k = ArrowUp then
        (let move = (if k = ArrowDown then 1 else -1)
         in focusSoon
              (map_option FocusableElement
                 (elementAt n (jsRem (currentIndex + move + int n) (int n)))) s)
      else if k = Home then focusSoon (Some (FocusableElement 0)) s
      else if k = End then focusSoon (Some (FocusableElement (n - 1))) s
      else if k = Tab \<or> k = Escape then closeDropdown items (Some (activeDropdown s)) s
      else s)"

text \<open>A \<open>mousedown\<close> outside of the navigation container.\<close>

definition handleClickOutside :: "desktop \<Rightarrow> desktop" where
  "handleClickOutside s = (if activeDropdown s \<noteq> [] then s\<lparr>activeDropdown := []\<rparr> else s)"

subsection \<open>Running timers\<close>

text \<open>
  A state update requested after the component was unmounted is dropped; calls of
  \<open>onNavigate\<close> and \<open>focus\<close> still happen.
\<close>

definition setActiveDropdown :: "string \<Rightarrow> desktop \<Rightarrow> desktop" where
  "setActiveDropdown v s = (if mounted s then s\<lparr>activeDropdown := v\<rparr> else s)"

definition refocusTrigger :: "DesktopNavItemData list \<Rightarrow> string \<Rightarrow> desktop \<Rightarrow> desktop" where
  "refocusTrigger items triggerLabel s =
     (case findByLabel items triggerLabel of
        None \<Rightarrow> s
      | Some triggerItem \<Rightarrow> focus (ElementById (nav_id triggerItem)) s)"

fun runCallback :: "DesktopNavItemData list \<Rightarrow> callback \<Rightarrow> desktop \<Rightarrow> desktop" where
  "runCallback items (CloseIfNotHovering n d) s =
     (if \<not> n \<and> \<not> d then setActiveDropdown [] s else s)"
| "runCallback items (FocusLater t) s = focus t s"
| "runCallback items (NavigateAndRefocus u l) s = refocusTrigger items l (onNavigate u s)"
| "runCallback items (Refocus l) s = refocusTrigger items l s"

text \<open>
  Firing a timer takes it off the pending list and runs its callback at its due time.
\<close>

definition fire :: "DesktopNavItemData list \<Rightarrow> callback timer \<Rightarrow> desktop \<Rightarrow> desktop" where
  "fire items t s =
     runCallback items (cb t)
       (s\<lparr>timers := filter (\<lambda>t'. tid t' \<noteq> tid t) (timers s), now := max (now s) (due t)\<rparr>)"

text \<open>
  Letting \<open>dt\<close> milliseconds pass runs every timer that falls due, earliest first and in
  the order of registration among equals. No callback of this controller sets or clears
  a timer, so the timers to run are those pending at the start.
\<close>

definition dueTimers :: "nat \<Rightarrow> desktop \<Rightarrow> callback timer list" where
  "dueTimers dt s = sort_key due (filter (\<lambda>t. due t \<le> now s + dt) (timers s))"

definition advance :: "DesktopNavItemData list \<Rightarrow> nat \<Rightarrow> desktop \<Rightarrow> desktop" where
  "advance items dt s =
     (foldl (\<lambda>s' t. fire items t s') s (dueTimers dt s))\<lparr>now := now s + dt\<rparr>"

text \<open>
  Unmounting runs the cleanup functions of the component's effects. The only effect of
  \<open>DesktopNavigation\<close> with a cleanup is the one that listens for \<open>mousedown\<close>; its
  cleanup removes the listener. Nothing touches \<open>mouseLeaveTimeoutRef\<close>.
\<close>

definition unmount :: "desktop \<Rightarrow> desktop" where
  "unmount s = s\<lparr>mounted := False\<rparr>"

text \<open>
  The sibling component \<open>NavigationContainer\<close> keeps the same kind of timer in a ref of the
  same name and registers an effect for unmounting whose cleanup is
  \<open>if (mouseLeaveTimeoutRef.current) clearTimeout(mouseLeaveTimeoutRef.current)\<close>.
\<close>

definition containerCleanup :: "desktop \<Rightarrow> desktop" where
  "containerCleanup s =
     (case mouseLeaveTimeoutRef s of None \<Rightarrow> s | Some h \<Rightarrow> clearTimeout (Some h) s)"

subsection \<open>Event sequences\<close>

text \<open>
  An event is one call of a handler, or the passing of time. The component renders again
  before the next event is handled, so a handler reads the state that the previous event
  left. The events are not restricted to those that the rendered page offers in a state;
  what holds after every sequence of events holds in every state the page can reach.
\<close>

datatype event =
    ItemHover DesktopNavItemData
  | ItemLeave
  | ItemFocus DesktopNavItemData
  | ItemBlur
  | DropdownEnter
  | DropdownLeave
  | ItemClick DesktopNavItemData
  | DropdownItemClick DropdownItem
  | ItemKeyDown DesktopNavItemData key
  | DropdownKeyDown nat int key
  | ClickOutside
  | Wait nat

fun step :: "DesktopNavItemData list \<Rightarrow> desktop \<Rightarrow> event \<Rightarrow> desktop" where
  "step items s (ItemHover item) = handleItemHover item s"
| "step items s ItemLeave = handleItemLeave s"
| "step items s (ItemFocus item) = handleItemFocus item s"
| "step items s ItemBlur = handleItemBlur s"
| "step items s DropdownEnter = handleDropdownEnter s"
| "step items s DropdownLeave = handleDropdownLeave s"
| "step items s (ItemClick item) = handleDesktopItemClick items item s"
| "step items s (DropdownItemClick item) = handleDropdownItemClick item s"
| "step items s (ItemKeyDown item k) = handleItemKeyDown items item k s"
| "step items s (DropdownKeyDown n i k) = handleDropdownKeyDown items n i k s"
| "step items s ClickOutside = handleClickOutside s"
| "step items s (Wait dt) = advance items dt s"

definition run :: "DesktopNavItemData list \<Rightarrow> event list \<Rightarrow> desktop" where
  "run items es = foldl (step items) initialDesktop es"

text \<open>The close timers that are pending, and the panels that are rendered.\<close>

fun isCloseTimer :: "callback \<Rightarrow> bool" where
  "isCloseTimer (CloseIfNotHovering n d) = True"
| "isCloseTimer _ = False"

definition pendingCloseTimers :: "desktop \<Rightarrow> callback timer list" where
  "pendingCloseTimers s = filter (\<lambda>t. isCloseTimer (cb t)) (timers s)"

definition dropdownKeys :: "string list" where
  "dropdownKeys = [''motorbikes'', ''scooter'', ''more'']"

definition renderedDropdowns :: "desktop \<Rightarrow> string list" where
  "renderedDropdowns s = filter (\<lambda>k. activeDropdown s = k) dropdownKeys"


section \<open>The "more" panel (DesktopDropdown.tsx, renderDropdownContent)\<close>

text \<open>
  Group numbers are integers. \<open>numberToString\<close> is the decimal numeral that \<open>String\<close>
  gives for an integer (of magnitude below \<open>10^21\<close>).
\<close>

definition digitChar :: "nat \<Rightarrow> char" where
  "digitChar d = char_of (48 + d)"

fun digitsOf :: "nat \<Rightarrow> string" where
  "digitsOf n = (if n < 10 then [digitChar n] else digitsOf (n div 10) @ [digitChar (n mod 10)])"

definition numberToString :: "int \<Rightarrow> string" where
  "numberToString k = (if k < 0 then CHR ''-'' # digitsOf (nat (- k)) else digitsOf (nat k))"

text \<open>
  \<open>items.filter(item => item.type === 'link' && typeof item.group === 'number')\<close>.
\<close>

definition isMoreLinkItem :: "DropdownItem \<Rightarrow> bool" where
  "isMoreLinkItem item = (dd_type item = Link \<and> dd_group item \<noteq> None)"

text \<open>
  The object built by \<open>reduce\<close> is a list of keys with their arrays, in the order in which
  the keys were created. One step of the reduction appends the item to the array of its
  group, creating the array first when the key is new. (After the filter every item has
  a group.)
\<close>

definition pushGroup :: "(int \<times> DropdownItem list) list \<Rightarrow> DropdownItem \<Rightarrow> (int \<times> DropdownItem list) list" where
  "pushGroup acc item =
     (case dd_group item of
        None \<Rightarrow> acc
      | Some g \<Rightarrow>
          (case map_of acc g of
             None \<Rightarrow> acc @ [(g, [item])]
           | Some xs \<Rightarrow> map (\<lambda>(k, v). if k = g then (k, v @ [item]) else (k, v)) acc))"

definition groupItems :: "DropdownItem list \<Rightarrow> (int \<times> DropdownItem list) list" where
  "groupItems moreItems = foldl pushGroup [] moreItems"

text \<open>
  \<open>Object.keys\<close> lists the keys that are array indices first, in ascending order, and
  then the other keys in the order of their creation.
\<close>

definition isArrayIndex :: "int \<Rightarrow> bool" where
  "isArrayIndex k = (0 \<le> k \<and> k < 4294967295)"

definition objectKeys :: "(int \<times> 'v) list \<Rightarrow> int list" where
  "objectKeys obj =
     sort (filter isArrayIndex (map fst obj)) @ filter (\<lambda>k. \<not> isArrayIndex k) (map fst obj)"

text \<open>
  \<open>sort()\<close> without a comparison function orders the numbers by their strings.
\<close>

definition defaultSort :: "int list \<Rightarrow> int list" where
  "defaultSort ks = sort_key numberToString ks"

definition groupLookup :: "(int \<times> DropdownItem list) list \<Rightarrow> int \<Rightarrow> DropdownItem list" where
  "groupLookup obj g = (case map_of obj g of None \<Rightarrow> [] | Some xs \<Rightarrow> xs)"

text \<open>
  What the \<open>more\<close> case renders: the "No items available." message, or one column for
  each group key with the links of the group, followed by a number of empty placeholder
  columns.
\<close>

datatype more_content =
    NoItemsAvailable
  | Columns "(int \<times> DropdownItem list) list" nat

definition renderMore :: "DropdownItem list \<Rightarrow> more_content" where
  "renderMore items =
     (let moreItems = filter isMoreLinkItem items;
          groupedItems = groupItems moreItems;
          groupKeys = defaultSort (objectKeys groupedItems)
      in if length moreItems = 0 then NoItemsAvailable
         else Columns (map (\<lambda>groupIndex. (groupIndex, groupLookup groupedItems groupIndex)) groupKeys)
                (nat (max 0 (2 - int (length groupKeys)))))"

section \<open>Mobile navigation (MobileNavigation, in MobileMenu.tsx)\<close>

datatype icon = IconRight | IconTopRight | IconMore

datatype variant = Mobile | MobileChild | MobileSubItem

record MobileNavItemData =
  m_label :: string
  hasChildren :: "bool option"
  icon :: "icon option"
  variant :: "variant option"
  m_url :: "string option"
  m_back :: "bool option"

record MobileNavigationProps =
  mobileMenuItems :: "MobileNavItemData list"
  motorbikesDropdownItems :: "DropdownItem list"
  scootersDropdownItems :: "DropdownItem list"
  moreDropdownItems :: "DropdownItem list"

text \<open>
  The two delayed functions of the mobile controller: the reset of \<open>handleMenuToggle\<close>,
  and the reset followed by the guarded navigation of \<open>handleMobileItemClick\<close>, which
  keeps the clicked item's url.
\<close>

datatype mcallback =
    ResetSubmenu
  | ResetAndNavigate "string option"

record mobile =
  mobileMenuOpen :: bool
  activeSubmenu :: string
  submenuItems :: "MobileNavItemData list"
  m_timers :: "mcallback timer list"
  m_nextTimerId :: nat
  m_now :: nat
  m_navigated :: "string list"
  m_mounted :: bool

definition initialMobile :: mobile where
  "initialMobile =
     \<lparr>mobileMenuOpen = False, activeSubmenu = [], submenuItems = [], m_timers = [],
      m_nextTimerId = 1, m_now = 0, m_navigated = [], m_mounted = True\<rparr>"

definition m_setTimeout :: "mcallback \<Rightarrow> nat \<Rightarrow> mobile \<Rightarrow> mobile" where
  "m_setTimeout f delay s =
     s\<lparr>m_timers := m_timers s @ [\<lparr>tid = m_nextTimerId s, due = m_now s + delay, cb = f\<rparr>],
       m_nextTimerId := Suc (m_nextTimerId s)\<rparr>"

definition mapMoreItem :: "DropdownItem \<Rightarrow> MobileNavItemData" where
  "mapMoreItem item =
     \<lparr>m_label = dd_label item, hasChildren = Some False, icon = Some IconTopRight,
      variant = Some MobileChild, m_url = dd_url item, m_back = None\<rparr>"

definition mapSourceItem :: "DropdownItem \<Rightarrow> MobileNavItemData" where
  "mapSourceItem item =
     \<lparr>m_label = dd_label item, hasChildren = Some False,
      icon = Some (if dd_type item = Model then IconRight else IconTopRight),
      variant = Some (if dd_type item = Model then MobileChild else MobileSubItem),
      m_url = dd_url item, m_back = None\<rparr>"

definition getSubmenuItemsForCategory :: "MobileNavigationProps \<Rightarrow> string \<Rightarrow> MobileNavItemData list" where
  "getSubmenuItemsForCategory p categoryLabel =
     (let categoryLower = toLowerCase categoryLabel in
      if categoryLower = ''motorbikes'' then map mapSourceItem (motorbikesDropdownItems p)
      else if categoryLower = ''scooters'' then map mapSourceItem (scootersDropdownItems p)
      else if categoryLower = ''more'' then map mapMoreItem (moreDropdownItems p)
      else [])"

definition handleMenuToggle :: "mobile \<Rightarrow> mobile" where
  "handleMenuToggle s =
     (let closing = mobileMenuOpen s;
          s1 = s\<lparr>mobileMenuOpen := \<not> mobileMenuOpen s\<rparr>
      in if closing then m_setTimeout ResetSubmenu 300 s1 else s1)"

definition handleMobileItemClick :: "MobileNavigationProps \<Rightarrow> MobileNavItemData \<Rightarrow> mobile \<Rightarrow> mobile" where
  "handleMobileItemClick p item s =
     (if m_back item = Some True then s\<lparr>activeSubmenu := []\<rparr>
      else if hasChildren item = Some True then
        s\<lparr>activeSubmenu := m_label item,
          submenuItems := getSubmenuItemsForCategory p (m_label item)\<rparr>
      else m_setTimeout (ResetAndNavigate (m_url item)) 300 (s\<lparr>mobileMenuOpen := False\<rparr>))"

text \<open>\<open>const currentMobileNavItems = activeSubmenu ? submenuItems : mobileMenuItems\<close>.\<close>

definition currentMobileNavItems :: "MobileNavigationProps \<Rightarrow> mobile \<Rightarrow> MobileNavItemData list" where
  "currentMobileNavItems p s = (if activeSubmenu s \<noteq> [] then submenuItems s else mobileMenuItems p)"

text \<open>The argument of the "Back" button, \<open>{ back: true }\<close>; its label is never read.\<close>

definition backItem :: MobileNavItemData where
  "backItem =
     \<lparr>m_label = [], hasChildren = None, icon = None, variant = None, m_url = None,
      m_back = Some True\<rparr>"

definition resetSubmenu :: "mobile \<Rightarrow> mobile" where
  "resetSubmenu s = (if m_mounted s then s\<lparr>activeSubmenu := [], submenuItems := []\<rparr> else s)"

definition m_navigateIfReal :: "string option \<Rightarrow> mobile \<Rightarrow> mobile" where
  "m_navigateIfReal u s =
     (case u of None \<Rightarrow> s
      | Some v \<Rightarrow> if v \<noteq> [] \<and> v \<noteq> ''#'' then s\<lparr>m_navigated := m_navigated s @ [v]\<rparr> else s)"

fun runMobileCallback :: "mcallback \<Rightarrow> mobile \<Rightarrow> mobile" where
  "runMobileCallback ResetSubmenu s = resetSubmenu s"
| "runMobileCallback (ResetAndNavigate u) s = m_navigateIfReal u (resetSubmenu s)"

definition m_fire :: "mcallback timer \<Rightarrow> mobile \<Rightarrow> mobile" where
  "m_fire t s =
     runMobileCallback (cb t)
       (s\<lparr>m_timers := filter (\<lambda>t'. tid t' \<noteq> tid t) (m_timers s),
          m_now := max (m_now s) (due t)\<rparr>)"

definition m_dueTimers :: "nat \<Rightarrow> mobile \<Rightarrow> mcallback timer list" where
  "m_dueTimers dt s = sort_key due (filter (\<lambda>t. due t \<le> m_now s + dt) (m_timers s))"

definition m_advance :: "nat \<Rightarrow> mobile \<Rightarrow> mobile" where
  "m_advance dt s = (foldl (\<lambda>s' t. m_fire t s') s (m_dueTimers dt s))\<lparr>m_now := m_now s + dt\<rparr>"

text \<open>
  \<open>MobileNavigation\<close> has no effect with a cleanup, and the handles of its timers are not
  kept: unmounting leaves the pending timers as they are.
\<close>

definition m_unmount :: "mobile \<Rightarrow> mobile" where
  "m_unmount s = s\<lparr>m_mounted := False\<rparr>"

text \<open>
  The events of the drawer: the menu button, the close button and the Escape key all call
  \<open>handleMenuToggle\<close>; a click on the \<open>k\<close>-th item of the list on display; the button at
  the bottom, which goes back when a submenu is on display and closes otherwise.
\<close>

datatype mevent =
    MenuToggle
  | VisibleItemClick nat
  | BottomButton
  | MWait nat

fun m_step :: "MobileNavigationProps \<Rightarrow> mobile \<Rightarrow> mevent \<Rightarrow> mobile" where
  "m_step p s MenuToggle = handleMenuToggle s"
| "m_step p s (VisibleItemClick k) =
     (if k < length (currentMobileNavItems p s)
      then handleMobileItemClick p (currentMobileNavItems p s ! k) s else s)"
| "m_step p s BottomButton =
     (if activeSubmenu s \<noteq> [] then handleMobileItemClick p backItem s else handleMenuToggle s)"
| "m_step p s (MWait dt) = m_advance dt s"

definition m_run :: "MobileNavigationProps \<Rightarrow> mevent list \<Rightarrow> mobile" where
  "m_run p es = foldl (m_step p) initialMobile es"

section \<open>Invariant and scenario data\<close>

text \<open>
  The invariant of the desktop controller's timers: handles are distinct and were issued
  before, every pending close timer is the one that \<open>mouseLeaveTimeoutRef\<close> holds, and
  while a close timer is pending the two hover flags are not both set; if the function it
  will run closed over two false flags, both flags are false now.
\<close>

definition closeTimerInv :: "desktop \<Rightarrow> bool" where
  "closeTimerInv s \<longleftrightarrow>
     distinct (map tid (timers s)) \<and>
     (\<forall>t\<in>set (timers s). tid t < nextTimerId s) \<and>
     (\<forall>t\<in>set (timers s). isCloseTimer (cb t) \<longrightarrow>
        mouseLeaveTimeoutRef s = Some (tid t) \<and>
        \<not> (isHoveringNavItem s \<and> isHoveringDropdown s) \<and>
        (cb t = CloseIfNotHovering False False \<longrightarrow>
           \<not> isHoveringNavItem s \<and> \<not> isHoveringDropdown s))"

text \<open>The entries of the click scenario, and a second entry that owns a submenu.\<close>

definition entryA :: DesktopNavItemData where
  "entryA = \<lparr>nav_id = ''a'', nav_label = ''Motorbikes'', hasDropdown = True, nav_url = None\<rparr>"

definition entryB :: DesktopNavItemData where
  "entryB = \<lparr>nav_id = ''b'', nav_label = ''Contact'', hasDropdown = False, nav_url = Some ''#contact''\<rparr>"

definition scenarioEntries :: "DesktopNavItemData list" where
  "scenarioEntries = [entryA, entryB]"

definition entryS :: DesktopNavItemData where
  "entryS = \<lparr>nav_id = ''s'', nav_label = ''Scooter'', hasDropdown = True, nav_url = None\<rparr>"


text \<open>
  Three entries that share an id. (The entries of \<open>navigation.data.ts\<close> carry no id at
  all, so that their ids all compare equal.)
\<close>

definition unkeyedEntries :: "DesktopNavItemData list" where
  "unkeyedEntries =
     [\<lparr>nav_id = [], nav_label = ''Motorbikes'', hasDropdown = True, nav_url = Some ''#''\<rparr>,
      \<lparr>nav_id = [], nav_label = ''Scooter'', hasDropdown = True, nav_url = Some ''#''\<rparr>,
      \<lparr>nav_id = [], nav_label = ''More'', hasDropdown = True, nav_url = Some ''#''\<rparr>]"

text \<open>
  The invariant of the mobile controller: it is mounted, and every item of the submenu
  list is a leaf and is not the "Back" item.
\<close>

definition leafInv :: "mobile \<Rightarrow> bool" where
  "leafInv s \<longleftrightarrow>
     m_mounted s \<and> (\<forall>item\<in>set (submenuItems s). hasChildren item = Some False \<and> m_back item = None)"

text \<open>
  The eight links of the "more" dataset of \<open>navigation.data.ts\<close>, four of group 0 and
  four of group 1, here with the two groups interleaved; and the data of a small mobile
  menu whose "More" category has a link with a url and one with \<open>#\<close>.
\<close>

definition moreLink :: "string \<Rightarrow> string \<Rightarrow> int \<Rightarrow> DropdownItem" where
  "moreLink l u g = \<lparr>dd_type = Link, dd_label = l, dd_url = Some u, dd_image = None, dd_group = Some g\<rparr>"

definition moreScenario :: "DropdownItem list" where
  "moreScenario =
     [moreLink ''About Us'' ''#about'' 0, moreLink ''Support'' ''#support'' 1,
      moreLink ''Press'' ''#press'' 0, moreLink ''Contact Us'' ''#contact-more'' 1,
      moreLink ''Blog'' ''#blog'' 0, moreLink ''FAQ'' ''#faq'' 1,
      moreLink ''Become a Dealer'' ''#become-dealer'' 0,
      moreLink ''Compare Models'' ''#compare-models-more'' 1]"

definition placeholderLink :: DropdownItem where
  "placeholderLink = \<lparr>dd_type = Link, dd_label = ''Terms'', dd_url = Some ''#'', dd_image = None, dd_group = Some 1\<rparr>"

definition moreCategory :: MobileNavItemData where
  "moreCategory =
     \<lparr>m_label = ''More'', hasChildren = Some True, icon = Some IconMore, variant = Some Mobile,
      m_url = None, m_back = None\<rparr>"

definition mobileScenario :: MobileNavigationProps where
  "mobileScenario =
     \<lparr>mobileMenuItems = [moreCategory], motorbikesDropdownItems = [], scootersDropdownItems = [],
      moreDropdownItems = [moreLink ''About Us'' ''#about'' 0, placeholderLink]\<rparr>"

section \<open>Properties of the desktop controller\<close>

lemma inv_initial: "closeTimerInv initialDesktop"
  by (simp add: closeTimerInv_def initialDesktop_def)

lemma inv_clearCloseTimer:
  assumes "closeTimerInv s"
  shows "closeTimerInv (clearCloseTimer (s\<lparr>isHoveringNavItem := n, isHoveringDropdown := d, activeDropdown := a\<rparr>))"
  using assms
  by (auto simp: closeTimerInv_def clearCloseTimer_def clearTimeout_def distinct_map_filter split: option.splits)

lemma inv_startCloseTimer:
  assumes "closeTimerInv s" "\<not> (n \<and> d)" "\<not> cn \<and> \<not> cd \<longrightarrow> \<not> n \<and> \<not> d"
  shows "closeTimerInv (startCloseTimer cn cd (s\<lparr>isHoveringNavItem := n, isHoveringDropdown := d\<rparr>))"
  using assms
  by (auto simp: closeTimerInv_def startCloseTimer_def setTimeout_def clearTimeout_def distinct_map_filter split: option.splits)

lemma inv_setTimeout:
  assumes "closeTimerInv s" "\<not> isCloseTimer f"
  shows "closeTimerInv (snd (setTimeout f delay s))"
  using assms
  by (auto simp: closeTimerInv_def setTimeout_def)

lemma inv_activeDropdown:
  "closeTimerInv (s\<lparr>activeDropdown := a\<rparr>) = closeTimerInv s"
  by (simp add: closeTimerInv_def)

lemma inv_onNavigate: "closeTimerInv (onNavigate u s) = closeTimerInv s"
  by (simp add: closeTimerInv_def onNavigate_def)

lemma inv_focus: "closeTimerInv (focus t s) = closeTimerInv s"
  by (simp add: closeTimerInv_def focus_def)


lemma inv_handleItemHover: "closeTimerInv s \<Longrightarrow> closeTimerInv (handleItemHover item s)"
  using inv_clearCloseTimer [where s = s and n = True and d = "isHoveringDropdown s" and a = "activeDropdown s"]
  by (simp add: handleItemHover_def Let_def inv_activeDropdown)

lemma inv_handleItemFocus: "closeTimerInv s \<Longrightarrow> closeTimerInv (handleItemFocus item s)"
  using inv_clearCloseTimer [where s = s and n = True and d = "isHoveringDropdown s" and a = "activeDropdown s"]
  by (simp add: handleItemFocus_def)

lemma inv_handleDropdownEnter: "closeTimerInv s \<Longrightarrow> closeTimerInv (handleDropdownEnter s)"
  using inv_clearCloseTimer [where s = s and n = "isHoveringNavItem s" and d = True and a = "activeDropdown s"]
  by (simp add: handleDropdownEnter_def)

lemma inv_handleItemLeave: "closeTimerInv s \<Longrightarrow> closeTimerInv (handleItemLeave s)"
  using inv_startCloseTimer [where s = s and n = False and d = "isHoveringDropdown s" and cn = "isHoveringNavItem s" and cd = "isHoveringDropdown s"]
  by (simp add: handleItemLeave_def)

lemma inv_handleItemBlur: "closeTimerInv s \<Longrightarrow> closeTimerInv (handleItemBlur s)"
  using inv_startCloseTimer [where s = s and n = False and d = "isHoveringDropdown s" and cn = "isHoveringNavItem s" and cd = "isHoveringDropdown s"]
  by (simp add: handleItemBlur_def)

lemma inv_handleDropdownLeave: "closeTimerInv s \<Longrightarrow> closeTimerInv (handleDropdownLeave s)"
  using inv_startCloseTimer [where s = s and n = "isHoveringNavItem s" and d = False and cn = "isHoveringNavItem s" and cd = "isHoveringDropdown s"]
  by (simp add: handleDropdownLeave_def)

lemma inv_clearCloseTimer_active:
  "closeTimerInv s \<Longrightarrow> closeTimerInv (clearCloseTimer (s\<lparr>activeDropdown := a\<rparr>))"
  using inv_clearCloseTimer [where s = s and n = "isHoveringNavItem s" and d = "isHoveringDropdown s" and a = a]
  by simp

lemma inv_closeDropdown: "closeTimerInv s \<Longrightarrow> closeTimerInv (closeDropdown items r s)"
  by (simp add: closeDropdown_def Let_def inv_activeDropdown inv_setTimeout split: option.splits)

lemma inv_navigateIfReal: "closeTimerInv (navigateIfReal u s) = closeTimerInv s"
  by (simp add: navigateIfReal_def inv_onNavigate split: option.splits)

lemma inv_focusSoon: "closeTimerInv s \<Longrightarrow> closeTimerInv (focusSoon t s)"
  by (simp add: focusSoon_def inv_setTimeout split: option.splits)

lemma inv_handleDesktopItemClick:
  "closeTimerInv s \<Longrightarrow> closeTimerInv (handleDesktopItemClick items item s)"
  by (simp add: handleDesktopItemClick_def Let_def inv_navigateIfReal inv_closeDropdown
      inv_clearCloseTimer_active)

lemma inv_handleDropdownItemClick:
  "closeTimerInv s \<Longrightarrow> closeTimerInv (handleDropdownItemClick item s)"
  by (simp add: handleDropdownItemClick_def Let_def inv_activeDropdown inv_setTimeout
      split: option.splits)

lemma inv_handleItemKeyDown:
  "closeTimerInv s \<Longrightarrow> closeTimerInv (handleItemKeyDown items item k s)"
  by (simp add: handleItemKeyDown_def Let_def inv_navigateIfReal inv_closeDropdown
      inv_clearCloseTimer_active inv_setTimeout inv_focusSoon inv_focus)

lemma inv_handleDropdownKeyDown:
  "closeTimerInv s \<Longrightarrow> closeTimerInv (handleDropdownKeyDown items n i k s)"
  by (simp add: handleDropdownKeyDown_def Let_def inv_closeDropdown inv_focusSoon)

lemma inv_handleClickOutside: "closeTimerInv s \<Longrightarrow> closeTimerInv (handleClickOutside s)"
  by (simp add: handleClickOutside_def inv_activeDropdown)

lemma inv_runCallback: "closeTimerInv s \<Longrightarrow> closeTimerInv (runCallback items c s)"
  by (cases c)
    (simp_all add: setActiveDropdown_def inv_activeDropdown inv_focus refocusTrigger_def
      inv_onNavigate split: option.splits)

lemma inv_remove:
  "closeTimerInv s \<Longrightarrow> closeTimerInv (s\<lparr>timers := filter P (timers s), now := n\<rparr>)"
  by (auto simp: closeTimerInv_def distinct_map_filter)

lemma inv_fire: "closeTimerInv s \<Longrightarrow> closeTimerInv (fire items t s)"
  by (simp add: fire_def inv_runCallback inv_remove)

lemma inv_fire_all: "closeTimerInv s \<Longrightarrow> closeTimerInv (foldl (\<lambda>s' t. fire items t s') s ts)"
  by (induction ts arbitrary: s) (simp_all add: inv_fire)

lemma inv_now: "closeTimerInv (s\<lparr>now := n\<rparr>) = closeTimerInv s"
  by (simp add: closeTimerInv_def)

lemma inv_advance: "closeTimerInv s \<Longrightarrow> closeTimerInv (advance items dt s)"
  by (simp add: advance_def inv_now inv_fire_all)

lemma inv_step: "closeTimerInv s \<Longrightarrow> closeTimerInv (step items s e)"
  by (cases e)
    (simp_all add: inv_handleItemHover inv_handleItemLeave inv_handleItemFocus
      inv_handleItemBlur inv_handleDropdownEnter inv_handleDropdownLeave
      inv_handleDesktopItemClick inv_handleDropdownItemClick inv_handleItemKeyDown
      inv_handleDropdownKeyDown inv_handleClickOutside inv_advance)

lemma inv_steps: "closeTimerInv s \<Longrightarrow> closeTimerInv (foldl (step items) s es)"
  by (induction es arbitrary: s) (simp_all add: inv_step)

lemma inv_run: "closeTimerInv (run items es)"
  by (simp add: run_def inv_steps inv_initial)

lemma lower_Motorbikes: "toLowerCase ''Motorbikes'' = ''motorbikes''"
  by code_simp

lemma pending_activeDropdown [simp]:
  "pendingCloseTimers (s\<lparr>activeDropdown := a\<rparr>) = pendingCloseTimers s"
  by (simp add: pendingCloseTimers_def)


lemma pending_clear_upd:
  "closeTimerInv s \<Longrightarrow>
   pendingCloseTimers (clearCloseTimer (s\<lparr>isHoveringNavItem := n, isHoveringDropdown := d, activeDropdown := a\<rparr>)) = []"
  by (auto simp: closeTimerInv_def pendingCloseTimers_def clearCloseTimer_def clearTimeout_def
      filter_empty_conv split: option.splits)

lemma pending_handleItemHover:
  "closeTimerInv s \<Longrightarrow> pendingCloseTimers (handleItemHover item s) = []"
  using pending_clear_upd [where s = s and n = True and d = "isHoveringDropdown s" and a = "activeDropdown s"]
  by (simp add: handleItemHover_def Let_def)

lemma pending_handleDropdownEnter:
  "closeTimerInv s \<Longrightarrow> pendingCloseTimers (handleDropdownEnter s) = []"
  using pending_clear_upd [where s = s and n = "isHoveringNavItem s" and d = True and a = "activeDropdown s"]
  by (simp add: handleDropdownEnter_def)

lemma pending_click_toggle:
  "closeTimerInv s \<Longrightarrow> pendingCloseTimers (clearCloseTimer (s\<lparr>activeDropdown := a\<rparr>)) = []"
  using pending_clear_upd [where s = s and n = "isHoveringNavItem s" and d = "isHoveringDropdown s" and a = a]
  by simp

lemma active_clearCloseTimer [simp]:
  "activeDropdown (clearCloseTimer s) = activeDropdown s"
  by (simp add: clearCloseTimer_def clearTimeout_def split: option.splits)

lemma active_handleItemHover:
  "activeDropdown (handleItemHover item s) =
     (if hasDropdown item then toLowerCase (nav_label item) else [])"
  by (simp add: handleItemHover_def Let_def)

lemma now_handleItemHover: "now (handleItemHover item s) = now s"
  by (simp add: handleItemHover_def Let_def clearCloseTimer_def clearTimeout_def split: option.splits)


lemma runCallback_flags:
  "isHoveringNavItem (runCallback items c s) = isHoveringNavItem s"
  "isHoveringDropdown (runCallback items c s) = isHoveringDropdown s"
  by (cases c; simp add: setActiveDropdown_def focus_def refocusTrigger_def onNavigate_def
      split: option.splits)+

lemma fire_flags:
  "isHoveringNavItem (fire items t s) = isHoveringNavItem s"
  "isHoveringDropdown (fire items t s) = isHoveringDropdown s"
  by (simp_all add: fire_def runCallback_flags)

lemma fire_all_flags:
  "isHoveringNavItem (foldl (\<lambda>s' t. fire items t s') s ts) = isHoveringNavItem s"
  "isHoveringDropdown (foldl (\<lambda>s' t. fire items t s') s ts) = isHoveringDropdown s"
  by (induction ts arbitrary: s) (simp_all add: fire_flags)

lemma advance_flags:
  "isHoveringNavItem (advance items dt s) = isHoveringNavItem s"
  "isHoveringDropdown (advance items dt s) = isHoveringDropdown s"
  by (simp_all add: advance_def fire_all_flags)

lemma runCallback_active:
  "c \<noteq> CloseIfNotHovering False False \<Longrightarrow>
   activeDropdown (runCallback items c s) = activeDropdown s"
  by (cases c)
    (auto simp: setActiveDropdown_def focus_def refocusTrigger_def onNavigate_def
      split: option.splits)

lemma runCallback_active_cases:
  "activeDropdown (runCallback items c s) = activeDropdown s \<or>
   activeDropdown (runCallback items c s) = []"
  by (cases c)
    (auto simp: setActiveDropdown_def focus_def refocusTrigger_def onNavigate_def
      split: option.splits)

lemma fire_active:
  "cb t \<noteq> CloseIfNotHovering False False \<Longrightarrow>
   activeDropdown (fire items t s) = activeDropdown s"
  by (simp add: fire_def runCallback_active)

lemma fire_active_cases:
  "activeDropdown (fire items t s) = activeDropdown s \<or> activeDropdown (fire items t s) = []"
  using runCallback_active_cases
    [of items "cb t" "s\<lparr>timers := filter (\<lambda>t'. tid t' \<noteq> tid t) (timers s), now := max (now s) (due t)\<rparr>"]
  by (simp add: fire_def)

lemma fire_all_active:
  "\<forall>t\<in>set ts. cb t \<noteq> CloseIfNotHovering False False \<Longrightarrow>
   activeDropdown (foldl (\<lambda>s' t. fire items t s') s ts) = activeDropdown s"
  by (induction ts arbitrary: s) (simp_all add: fire_active)

lemma fire_all_active_cases:
  "activeDropdown (foldl (\<lambda>s' t. fire items t s') s ts) = activeDropdown s \<or>
   activeDropdown (foldl (\<lambda>s' t. fire items t s') s ts) = []"
proof (induction ts arbitrary: s)
  case Nil
  show ?case by simp
next
  case (Cons t ts)
  show ?case
    using Cons.IH [of "fire items t s"] fire_active_cases [of items t s]
    by auto
qed

lemma set_dueTimers:
  "set (dueTimers dt s) = {t \<in> set (timers s). due t \<le> now s + dt}"
  by (auto simp: dueTimers_def)

lemma advance_active_unchanged:
  assumes "\<forall>t\<in>set (timers s). due t \<le> now s + dt \<longrightarrow> cb t \<noteq> CloseIfNotHovering False False"
  shows "activeDropdown (advance items dt s) = activeDropdown s"
  using assms by (simp add: advance_def fire_all_active set_dueTimers)

lemma advance_active_cases:
  "activeDropdown (advance items dt s) = activeDropdown s \<or> activeDropdown (advance items dt s) = []"
  using fire_all_active_cases [of items s "dueTimers dt s"] by (simp add: advance_def)

lemma advance_no_pending:
  assumes "pendingCloseTimers s = []"
  shows "activeDropdown (advance items dt s) = activeDropdown s"
proof (rule advance_active_unchanged, intro ballI impI)
  fix t assume "t \<in> set (timers s)"
  with assms have "\<not> isCloseTimer (cb t)"
    by (auto simp: pendingCloseTimers_def filter_empty_conv)
  then show "cb t \<noteq> CloseIfNotHovering False False" by auto
qed

lemma advance_closes_only_unhovered:
  assumes inv: "closeTimerInv s"
    and changed: "activeDropdown (advance items dt s) \<noteq> activeDropdown s"
  shows "\<not> isHoveringNavItem s \<and> \<not> isHoveringDropdown s"
proof -
  from changed obtain t where "t \<in> set (timers s)" and "cb t = CloseIfNotHovering False False"
    using advance_active_unchanged [of s dt items] by blast
  with inv show ?thesis
    by (auto simp: closeTimerInv_def)
qed


lemma timers_handleItemLeave:
  "closeTimerInv s \<Longrightarrow> t \<in> set (timers (handleItemLeave s)) \<Longrightarrow> isCloseTimer (cb t) \<Longrightarrow>
   due t = now s + 250"
  by (auto simp: closeTimerInv_def handleItemLeave_def startCloseTimer_def setTimeout_def
      clearTimeout_def split: option.splits)

lemma now_handleItemLeave: "now (handleItemLeave s) = now s"
  by (simp add: handleItemLeave_def startCloseTimer_def setTimeout_def clearTimeout_def
      split: option.splits)

lemma active_handleItemLeave: "activeDropdown (handleItemLeave s) = activeDropdown s"
  by (simp add: handleItemLeave_def startCloseTimer_def setTimeout_def clearTimeout_def
      split: option.splits)

lemma leave_then_wait:
  assumes "closeTimerInv s" "dt < 250"
  shows "activeDropdown (advance items dt (handleItemLeave s)) = activeDropdown s"
proof -
  have "activeDropdown (advance items dt (handleItemLeave s)) = activeDropdown (handleItemLeave s)"
  proof (rule advance_active_unchanged, intro ballI impI)
    fix t
    assume t: "t \<in> set (timers (handleItemLeave s))"
      and d: "due t \<le> now (handleItemLeave s) + dt"
    show "cb t \<noteq> CloseIfNotHovering False False"
    proof
      assume "cb t = CloseIfNotHovering False False"
      then have "isCloseTimer (cb t)" by simp
      from timers_handleItemLeave [OF assms(1) t this] d assms(2) show False
        by (simp add: now_handleItemLeave)
    qed
  qed
  then show ?thesis by (simp add: active_handleItemLeave)
qed

lemma active_handleDropdownEnter: "activeDropdown (handleDropdownEnter s) = activeDropdown s"
  by (simp add: handleDropdownEnter_def)

lemma lower_Scooter: "toLowerCase ''Scooter'' = ''scooter''"
  by code_simp

lemma rendered_at_most_one: "length (renderedDropdowns x) \<le> 1"
  by (simp add: renderedDropdowns_def dropdownKeys_def)

text \<open>
  Claim C1. Hovering a submenu owner \<open>A\<close> and later, after any events, a submenu owner \<open>B\<close>
  leaves \<open>B\<close>'s key (its lower-cased label) as the active key, also after any amount of
  time. The hover sets the key in the same step, without the clock moving, and leaves no
  close timer pending; at most one panel is rendered in any state; hovering an entry
  without a submenu empties the key.
\<close>

theorem submenu_single_selection:
  assumes "hasDropdown A" and "hasDropdown B"
  shows "let s0 = run items es;
             s1 = handleItemHover A s0;
             s2 = handleItemHover B (foldl (step items) s1 mid)
         in activeDropdown s1 = toLowerCase (nav_label A) \<and> now s1 = now s0 \<and>
            pendingCloseTimers s1 = [] \<and>
            activeDropdown s2 = toLowerCase (nav_label B) \<and> pendingCloseTimers s2 = [] \<and>
            activeDropdown (advance items dt s2) = toLowerCase (nav_label B) \<and>
            length (renderedDropdowns x) \<le> 1 \<and>
            (\<not> hasDropdown C \<longrightarrow> activeDropdown (handleItemHover C s0) = [])"
proof -
  define s0 where "s0 = run items es"
  define s1 where "s1 = handleItemHover A s0"
  define s2 where "s2 = handleItemHover B (foldl (step items) s1 mid)"
  have i0: "closeTimerInv s0" by (simp add: s0_def inv_run)
  then have i1: "closeTimerInv s1" by (simp add: s1_def inv_handleItemHover)
  then have im: "closeTimerInv (foldl (step items) s1 mid)" by (rule inv_steps)
  have p2: "pendingCloseTimers s2 = []"
    unfolding s2_def using im by (rule pending_handleItemHover)
  have a2: "activeDropdown s2 = toLowerCase (nav_label B)"
    by (simp add: s2_def active_handleItemHover assms)
  have "activeDropdown (advance items dt s2) = toLowerCase (nav_label B)"
    using advance_no_pending [OF p2] a2 by simp
  moreover have "pendingCloseTimers s1 = []"
    unfolding s1_def using i0 by (rule pending_handleItemHover)
  moreover have "activeDropdown s1 = toLowerCase (nav_label A)" "now s1 = now s0"
    by (simp_all add: s1_def active_handleItemHover now_handleItemHover assms)
  ultimately show ?thesis
    using p2 a2 rendered_at_most_one [of x]
    by (simp add: s0_def s1_def s2_def Let_def active_handleItemHover)
qed

theorem submenu_single_selection_witness:
  "hasDropdown entryA \<and> hasDropdown entryS \<and> \<not> hasDropdown entryB \<and>
   activeDropdown (handleItemHover entryA (run scenarioEntries [])) = ''motorbikes'' \<and>
   activeDropdown (advance scenarioEntries 1000
      (handleItemHover entryS
         (foldl (step scenarioEntries) (handleItemHover entryA (run scenarioEntries [])) [ItemLeave])))
     = ''scooter'' \<and>
   activeDropdown (handleItemHover entryB (run scenarioEntries [])) = []"
proof -
  have a: "hasDropdown entryA" by (simp add: entryA_def)
  have b: "hasDropdown entryS" by (simp add: entryS_def)
  have c: "\<not> hasDropdown entryB" by (simp add: entryB_def)
  have la: "toLowerCase (nav_label entryA) = ''motorbikes''"
    by (simp add: entryA_def lower_Motorbikes)
  have ls: "toLowerCase (nav_label entryS) = ''scooter''"
    by (simp add: entryS_def lower_Scooter)
  show ?thesis
    using a b c la ls
      submenu_single_selection [OF a b, of scenarioEntries "[]" "[ItemLeave]" 1000 initialDesktop entryB]
    by (simp add: Let_def)
qed

text \<open>
  Claim C2. In every reachable state, if letting time pass changes the active key, then
  the key becomes empty and both hover flags are false at that moment. After
  \<open>handleItemLeave\<close> and less than 250 ms, the submenu is as it was; entering the panel, or
  hovering a submenu owner, then leaves no close timer pending, and no later expiry
  closes the submenu.
\<close>

theorem hover_intent_debounce:
  assumes "dt < 250"
  shows "let s = run items es;
             waited = advance items dt' s;
             left = advance items dt (handleItemLeave s)
         in (activeDropdown waited \<noteq> activeDropdown s \<longrightarrow>
               activeDropdown waited = [] \<and> \<not> isHoveringNavItem waited \<and> \<not> isHoveringDropdown waited) \<and>
            activeDropdown left = activeDropdown s \<and>
            pendingCloseTimers (handleDropdownEnter left) = [] \<and>
            activeDropdown (advance items dt'' (handleDropdownEnter left)) = activeDropdown s \<and>
            (hasDropdown item \<longrightarrow>
               pendingCloseTimers (handleItemHover item left) = [] \<and>
               activeDropdown (advance items dt'' (handleItemHover item left)) = toLowerCase (nav_label item))"
proof -
  define s where "s = run items es"
  define left where "left = advance items dt (handleItemLeave s)"
  have i: "closeTimerInv s" by (simp add: s_def inv_run)
  have il: "closeTimerInv left"
    by (simp add: left_def inv_advance inv_handleItemLeave i)
  have 1: "activeDropdown (advance items dt' s) \<noteq> activeDropdown s \<longrightarrow>
            activeDropdown (advance items dt' s) = [] \<and>
            \<not> isHoveringNavItem (advance items dt' s) \<and> \<not> isHoveringDropdown (advance items dt' s)"
    using advance_closes_only_unhovered [OF i, of items dt'] advance_active_cases [of items dt' s]
    by (auto simp: advance_flags)
  have 2: "activeDropdown left = activeDropdown s"
    unfolding left_def using i assms by (rule leave_then_wait)
  have 3: "pendingCloseTimers (handleDropdownEnter left) = []"
    using il by (rule pending_handleDropdownEnter)
  have 4: "activeDropdown (advance items dt'' (handleDropdownEnter left)) = activeDropdown s"
    using advance_no_pending [OF 3] 2 by (simp add: active_handleDropdownEnter)
  have 5: "pendingCloseTimers (handleItemHover item left) = []"
    using il by (rule pending_handleItemHover)
  have 6: "hasDropdown item \<longrightarrow>
      activeDropdown (advance items dt'' (handleItemHover item left)) = toLowerCase (nav_label item)"
    using advance_no_pending [OF 5] by (simp add: active_handleItemHover)
  show ?thesis
    using 1 2 3 4 5 6 by (simp add: Let_def s_def left_def)
qed


theorem hover_intent_debounce_witness:
  "(100::nat) < 250 \<and> hasDropdown entryA \<and>
   activeDropdown (advance scenarioEntries 250 (run scenarioEntries [ItemHover entryA, ItemLeave, ItemLeave]))
     \<noteq> activeDropdown (run scenarioEntries [ItemHover entryA, ItemLeave, ItemLeave]) \<and>
   \<not> isHoveringNavItem (advance scenarioEntries 250 (run scenarioEntries [ItemHover entryA, ItemLeave, ItemLeave])) \<and>
   \<not> isHoveringDropdown (advance scenarioEntries 250 (run scenarioEntries [ItemHover entryA, ItemLeave, ItemLeave])) \<and>
   activeDropdown (advance scenarioEntries 1000 (handleDropdownEnter (advance scenarioEntries 100
      (handleItemLeave (run scenarioEntries [ItemHover entryA, ItemLeave, ItemLeave]))))) = ''motorbikes'' \<and>
   activeDropdown (advance scenarioEntries 1000 (handleItemHover entryA (advance scenarioEntries 100
      (handleItemLeave (run scenarioEntries [ItemHover entryA, ItemLeave, ItemLeave]))))) = ''motorbikes''"
proof -
  have d: "(100::nat) < 250" by simp
  have a: "hasDropdown entryA" by (simp add: entryA_def)
  have la: "toLowerCase (nav_label entryA) = ''motorbikes''"
    by (simp add: entryA_def lower_Motorbikes)
  have before: "activeDropdown (run scenarioEntries [ItemHover entryA, ItemLeave, ItemLeave]) = ''motorbikes''"
    by code_simp
  have after: "activeDropdown (advance scenarioEntries 250
      (run scenarioEntries [ItemHover entryA, ItemLeave, ItemLeave])) = []"
    by code_simp
  show ?thesis
    using d a la before after
      hover_intent_debounce [OF d, where items = scenarioEntries and dt' = 250
        and es = "[ItemHover entryA, ItemLeave, ItemLeave]" and dt'' = 1000 and item = entryA]
    by (simp add: Let_def)
qed

text \<open>
  The converse does not hold. The timer set when the pointer leaves a hovered trigger runs
  a function that still sees \<open>isHoveringNavItem\<close> as true, so it keeps the submenu open
  although both flags are false when it expires.
\<close>

lemma stale_flags_keep_open:
  "activeDropdown (run scenarioEntries [ItemHover entryA, ItemLeave, Wait 250]) = ''motorbikes'' \<and>
   \<not> isHoveringNavItem (run scenarioEntries [ItemHover entryA, ItemLeave, Wait 250]) \<and>
   \<not> isHoveringDropdown (run scenarioEntries [ItemHover entryA, ItemLeave, Wait 250]) \<and>
   timers (run scenarioEntries [ItemHover entryA, ItemLeave, Wait 250]) = []"
  by code_simp

text \<open>
  Claim C3. With the two entries of the scenario and no submenu open, a click on
  \<open>Contact\<close> calls \<open>onNavigate\<close> once, with \<open>#contact\<close>, and the key stays empty; a
  click on \<open>Motorbikes\<close> makes its key, \<open>motorbikes\<close>, the active one, a second click empties it,
  and after either click no close timer is pending.
\<close>

theorem click_scenario:
  assumes "activeDropdown (run scenarioEntries es) = []"
  shows "let s = run scenarioEntries es;
             sb = handleDesktopItemClick scenarioEntries entryB s;
             sa = handleDesktopItemClick scenarioEntries entryA s;
             saa = handleDesktopItemClick scenarioEntries entryA sa
         in navigated sb = navigated s @ [''#contact''] \<and> activeDropdown sb = [] \<and>
            activeDropdown sa = ''motorbikes'' \<and> pendingCloseTimers sa = [] \<and>
            activeDropdown saa = [] \<and> pendingCloseTimers saa = []"
proof -
  define s where "s = run scenarioEntries es"
  define sa where "sa = handleDesktopItemClick scenarioEntries entryA s"
  have i: "closeTimerInv s" by (simp add: s_def inv_run)
  have e: "activeDropdown s = []" using assms by (simp add: s_def)
  have sa_eq: "sa = clearCloseTimer (s\<lparr>activeDropdown := ''motorbikes''\<rparr>)"
    by (simp add: sa_def handleDesktopItemClick_def entryA_def lower_Motorbikes e)
  have ia: "closeTimerInv sa"
    by (simp add: sa_def inv_handleDesktopItemClick i)
  have aa: "activeDropdown sa = ''motorbikes''"
    by (simp add: sa_eq)
  have saa_eq: "handleDesktopItemClick scenarioEntries entryA sa = clearCloseTimer (sa\<lparr>activeDropdown := []\<rparr>)"
    by (simp add: handleDesktopItemClick_def entryA_def lower_Motorbikes aa)
  have "navigated (handleDesktopItemClick scenarioEntries entryB s) = navigated s @ [''#contact'']"
    "activeDropdown (handleDesktopItemClick scenarioEntries entryB s) = []"
    by (simp_all add: handleDesktopItemClick_def entryB_def closeDropdown_def e navigateIfReal_def
        onNavigate_def)
  moreover have "pendingCloseTimers sa = []"
    unfolding sa_eq using i by (rule pending_click_toggle)
  moreover have "pendingCloseTimers (handleDesktopItemClick scenarioEntries entryA sa) = []"
    unfolding saa_eq using ia by (rule pending_click_toggle)
  moreover have "activeDropdown (handleDesktopItemClick scenarioEntries entryA sa) = []"
    by (simp add: saa_eq)
  ultimately show ?thesis
    using aa by (simp add: Let_def s_def sa_def)
qed

theorem click_scenario_witness:
  "activeDropdown (run scenarioEntries [ItemLeave]) = [] \<and>
   pendingCloseTimers (run scenarioEntries [ItemLeave]) \<noteq> [] \<and>
   navigated (handleDesktopItemClick scenarioEntries entryB (run scenarioEntries [ItemLeave])) = [''#contact''] \<and>
   activeDropdown (handleDesktopItemClick scenarioEntries entryA (run scenarioEntries [ItemLeave])) = ''motorbikes'' \<and>
   pendingCloseTimers (handleDesktopItemClick scenarioEntries entryA (run scenarioEntries [ItemLeave])) = [] \<and>
   activeDropdown (handleDesktopItemClick scenarioEntries entryA
     (handleDesktopItemClick scenarioEntries entryA (run scenarioEntries [ItemLeave]))) = []"
proof -
  have h: "activeDropdown (run scenarioEntries [ItemLeave]) = []"
    by code_simp
  have p: "pendingCloseTimers (run scenarioEntries [ItemLeave]) \<noteq> []"
    by code_simp
  have n: "navigated (run scenarioEntries [ItemLeave]) = []"
    by code_simp
  show ?thesis
    using h p n click_scenario [OF h] by (simp add: Let_def)
qed

text \<open>
  Claim C7, as amended. In every reachable state at most one close timer is pending, it
  is the one held by \<open>mouseLeaveTimeoutRef\<close>, and while it is pending the two hover flags
  are not both true.
\<close>

theorem close_timer_invariant:
  "let s = run items es
   in length (pendingCloseTimers s) \<le> 1 \<and>
      (\<forall>t\<in>set (pendingCloseTimers s). mouseLeaveTimeoutRef s = Some (tid t)) \<and>
      (pendingCloseTimers s \<noteq> [] \<longrightarrow> \<not> (isHoveringNavItem s \<and> isHoveringDropdown s))"
proof -
  define s where "s = run items es"
  have i: "closeTimerInv s" by (simp add: s_def inv_run)
  have r: "\<forall>t\<in>set (pendingCloseTimers s). mouseLeaveTimeoutRef s = Some (tid t)"
    using i by (auto simp: closeTimerInv_def pendingCloseTimers_def)
  have d: "distinct (map tid (pendingCloseTimers s))"
    using i by (simp add: closeTimerInv_def pendingCloseTimers_def distinct_map_filter)
  have "set (map tid (pendingCloseTimers s)) \<subseteq> {x. mouseLeaveTimeoutRef s = Some x}"
    using r by auto
  moreover have "card {x. mouseLeaveTimeoutRef s = Some x} \<le> 1"
    by (cases "mouseLeaveTimeoutRef s") simp_all
  moreover have "finite {x. mouseLeaveTimeoutRef s = Some x}"
    by (cases "mouseLeaveTimeoutRef s") simp_all
  ultimately have "card (set (map tid (pendingCloseTimers s))) \<le> 1"
    by (meson card_mono le_trans)
  then have l: "length (pendingCloseTimers s) \<le> 1"
    using distinct_card [OF d] by simp
  have h: "pendingCloseTimers s \<noteq> [] \<longrightarrow> \<not> (isHoveringNavItem s \<and> isHoveringDropdown s)"
  proof
    assume "pendingCloseTimers s \<noteq> []"
    then obtain t where "t \<in> set (timers s)" "isCloseTimer (cb t)"
      by (auto simp: pendingCloseTimers_def filter_empty_conv)
    with i show "\<not> (isHoveringNavItem s \<and> isHoveringDropdown s)"
      by (auto simp: closeTimerInv_def)
  qed
  show ?thesis using l r h by (simp add: Let_def s_def)
qed

theorem close_timer_invariant_witness:
  "pendingCloseTimers (run scenarioEntries
     [ItemHover entryA, ItemLeave, DropdownEnter, DropdownKeyDown 4 0 Tab, Wait 50,
      ItemFocus entryA, ItemKeyDown entryA Tab, ItemBlur])
     = [\<lparr>tid = 3, due = 300, cb = CloseIfNotHovering True True\<rparr>] \<and>
   mouseLeaveTimeoutRef (run scenarioEntries
     [ItemHover entryA, ItemLeave, DropdownEnter, DropdownKeyDown 4 0 Tab, Wait 50,
      ItemFocus entryA, ItemKeyDown entryA Tab, ItemBlur])
     = Some 3 \<and>
   \<not> isHoveringNavItem (run scenarioEntries
     [ItemHover entryA, ItemLeave, DropdownEnter, DropdownKeyDown 4 0 Tab, Wait 50,
      ItemFocus entryA, ItemKeyDown entryA Tab, ItemBlur])"
proof -
  have p: "pendingCloseTimers (run scenarioEntries
     [ItemHover entryA, ItemLeave, DropdownEnter, DropdownKeyDown 4 0 Tab, Wait 50,
      ItemFocus entryA, ItemKeyDown entryA Tab, ItemBlur])
     = [\<lparr>tid = 3, due = 300, cb = CloseIfNotHovering True True\<rparr>]"
    by code_simp
  have d: "isHoveringDropdown (run scenarioEntries
     [ItemHover entryA, ItemLeave, DropdownEnter, DropdownKeyDown 4 0 Tab, Wait 50,
      ItemFocus entryA, ItemKeyDown entryA Tab, ItemBlur])"
    by code_simp
  show ?thesis
    using p d
      close_timer_invariant [of scenarioEntries
        "[ItemHover entryA, ItemLeave, DropdownEnter, DropdownKeyDown 4 0 Tab, Wait 50,
      ItemFocus entryA, ItemKeyDown entryA Tab, ItemBlur]"]
    by (simp add: Let_def)
qed

text \<open>
  Claim C7 as stated fails. After a single \<open>handleItemLeave\<close> a close timer is pending
  although no submenu is open. And with the pointer resting on the panel, Tab inside the
  panel closes it and returns the focus to the trigger; when the focus then leaves the
  trigger, a close timer is pending although \<open>isHoveringDropdown\<close> is true and no submenu
  is open.
\<close>

theorem close_timer_invariant_counterexample:
  "pendingCloseTimers (run scenarioEntries [ItemLeave]) \<noteq> [] \<and>
   activeDropdown (run scenarioEntries [ItemLeave]) = [] \<and>
   pendingCloseTimers (run scenarioEntries
     [ItemHover entryA, ItemLeave, DropdownEnter, DropdownKeyDown 4 0 Tab, Wait 50,
      ItemFocus entryA, ItemKeyDown entryA Tab, ItemBlur]) \<noteq> [] \<and>
   isHoveringDropdown (run scenarioEntries
     [ItemHover entryA, ItemLeave, DropdownEnter, DropdownKeyDown 4 0 Tab, Wait 50,
      ItemFocus entryA, ItemKeyDown entryA Tab, ItemBlur]) \<and>
   activeDropdown (run scenarioEntries
     [ItemHover entryA, ItemLeave, DropdownEnter, DropdownKeyDown 4 0 Tab, Wait 50,
      ItemFocus entryA, ItemKeyDown entryA Tab, ItemBlur]) = []"
  by code_simp

text \<open>
  Claim C9. When the label to return focus to matches no entry, \<open>closeDropdown\<close> only
  empties the active key: no timer is set, no focus is requested, and the result is an
  ordinary state of the controller.
\<close>

theorem closeDropdown_lookup_failure:
  assumes "findByLabel items
             (case r of None \<Rightarrow> activeDropdown s | Some l \<Rightarrow> if l = [] then activeDropdown s else l) = None"
  shows "closeDropdown items r s = s\<lparr>activeDropdown := []\<rparr> \<and>
         activeDropdown (closeDropdown items r s) = [] \<and>
         timers (closeDropdown items r s) = timers s \<and>
         focusRequests (closeDropdown items r s) = focusRequests s"
  using assms by (simp add: closeDropdown_def Let_def)

theorem closeDropdown_lookup_failure_witness:
  "findByLabel scenarioEntries ''Nowhere'' = None \<and>
   activeDropdown (run scenarioEntries [ItemHover entryA]) = ''motorbikes'' \<and>
   activeDropdown (closeDropdown scenarioEntries (Some ''Nowhere'') (run scenarioEntries [ItemHover entryA])) = [] \<and>
   timers (closeDropdown scenarioEntries (Some ''Nowhere'') (run scenarioEntries [ItemHover entryA])) = []"
proof -
  have h: "findByLabel scenarioEntries
             (case Some ''Nowhere'' of None \<Rightarrow> activeDropdown (run scenarioEntries [ItemHover entryA])
              | Some l \<Rightarrow> if l = [] then activeDropdown (run scenarioEntries [ItemHover entryA]) else l) = None"
    by code_simp
  have f: "findByLabel scenarioEntries ''Nowhere'' = None"
    by code_simp
  have a: "activeDropdown (run scenarioEntries [ItemHover entryA]) = ''motorbikes''"
    by code_simp
  have t: "timers (run scenarioEntries [ItemHover entryA]) = []"
    by code_simp
  show ?thesis
    using f a t closeDropdown_lookup_failure [OF h] by simp
qed

subsection \<open>Arrow keys on the top-level strip\<close>

lemma findIndexFrom_nth:
  "distinct (map f xs) \<Longrightarrow> i < length xs \<Longrightarrow>
   findIndexFrom k (\<lambda>x. f x = f (xs ! i)) xs = k + int i"
proof (induction xs arbitrary: i k)
  case Nil
  then show ?case by simp
next
  case (Cons x xs)
  show ?case
  proof (cases i)
    case 0
    then show ?thesis by simp
  next
    case (Suc j)
    with Cons.prems have j: "j < length xs" and d: "distinct (map f xs)"
      and nx: "f x \<notin> f ` set xs"
      by simp_all
    from j nx have "f x \<noteq> f (xs ! j)"
      by (metis imageI nth_mem)
    with Cons.IH [OF d j, of "k + 1"] Suc show ?thesis
      by simp
  qed
qed

lemma findIndex_nth:
  "distinct (map f xs) \<Longrightarrow> i < length xs \<Longrightarrow> findIndex (\<lambda>x. f x = f (xs ! i)) xs = int i"
  using findIndexFrom_nth [of f xs i 0] by (simp add: findIndex_def)

lemma jsRem_nonneg:
  "0 \<le> a \<Longrightarrow> 0 < b \<Longrightarrow> jsRem a b = Some (a mod b)"
  by (cases "a = 0") (simp_all add: jsRem_def sgn_if)

lemma nextIndex_nth:
  assumes "distinct (map nav_id items)" and "i < length items"
  shows "nextIndex items (items ! i) = Some (int ((i + 1) mod length items))"
proof -
  have "nextIndex items (items ! i) = jsRem (int i + 1) (int (length items))"
    by (simp add: nextIndex_def findIndex_nth [OF assms])
  also have "\<dots> = Some ((int i + 1) mod int (length items))"
    using assms(2) by (intro jsRem_nonneg) auto
  also have "(int i + 1) mod int (length items) = int ((i + 1) mod length items)"
    by (simp add: zmod_int add.commute)
  finally show ?thesis .
qed

lemma prevIndex_nth:
  assumes "distinct (map nav_id items)" and "i < length items"
  shows "prevIndex items (items ! i) = Some (int ((i + length items - 1) mod length items))"
proof -
  have "prevIndex items (items ! i) = jsRem (int i - 1 + int (length items)) (int (length items))"
    by (simp add: prevIndex_def findIndex_nth [OF assms])
  also have "\<dots> = Some ((int i - 1 + int (length items)) mod int (length items))"
    using assms(2) by (intro jsRem_nonneg) auto
  also have "int i - 1 + int (length items) = int (i + length items - 1)"
    using assms(2) by simp
  also have "int (i + length items - 1) mod int (length items) = int ((i + length items - 1) mod length items)"
    by (simp add: zmod_int)
  finally show ?thesis .
qed

lemma elementAt_mod:
  "0 < n \<Longrightarrow> elementAt n (Some (int (k mod n))) = Some (k mod n)"
  by (simp add: elementAt_def)

text \<open>
  Claim C4, as amended. The handler finds the focused entry by its id. For entries with
  pairwise distinct ids, \<open>ArrowRight\<close> on the entry at position \<open>i\<close> of \<open>n\<close> targets
  position \<open>(i + 1) mod n\<close> and \<open>ArrowLeft\<close> targets \<open>(i - 1 + n) mod n\<close>: from the last
  entry to the first, from the first to the last. The handler schedules the focus of that
  entry of \<open>itemRefs.current\<close>.
\<close>

theorem arrow_keys_wrap:
  assumes "distinct (map nav_id items)" and "i < length items"
  shows "nextIndex items (items ! i) = Some (int ((i + 1) mod length items)) \<and>
         prevIndex items (items ! i) = Some (int ((i + length items - 1) mod length items)) \<and>
         arrowTarget items (items ! i) ArrowRight = Some (ItemRef ((i + 1) mod length items)) \<and>
         arrowTarget items (items ! i) ArrowLeft = Some (ItemRef ((i + length items - 1) mod length items)) \<and>
         arrowTarget items (items ! (length items - 1)) ArrowRight = Some (ItemRef 0) \<and>
         arrowTarget items (items ! 0) ArrowLeft = Some (ItemRef (length items - 1)) \<and>
         timers (handleItemKeyDown items (items ! i) ArrowRight s) =
           timers s @ [\<lparr>tid = nextTimerId s, due = now s, cb = FocusLater (ItemRef ((i + 1) mod length items))\<rparr>] \<and>
         timers (handleItemKeyDown items (items ! i) ArrowLeft s) =
           timers s @ [\<lparr>tid = nextTimerId s, due = now s,
                        cb = FocusLater (ItemRef ((i + length items - 1) mod length items))\<rparr>]"
proof -
  have n: "0 < length items" using assms(2) by auto
  have r: "arrowTarget items (items ! j) ArrowRight = Some (ItemRef ((j + 1) mod length items))"
    if "j < length items" for j
    using n by (simp add: arrowTarget_def nextIndex_nth [OF assms(1) that] elementAt_mod)
  have l: "arrowTarget items (items ! j) ArrowLeft = Some (ItemRef ((j + length items - 1) mod length items))"
    if "j < length items" for j
    using n by (simp add: arrowTarget_def prevIndex_nth [OF assms(1) that] elementAt_mod)
  have last: "arrowTarget items (items ! (length items - 1)) ArrowRight = Some (ItemRef 0)"
    using r [of "length items - 1"] n by simp
  have first: "arrowTarget items (items ! 0) ArrowLeft = Some (ItemRef (length items - 1))"
    using l [of 0] n by simp
  have kr: "timers (handleItemKeyDown items (items ! i) ArrowRight s) =
           timers s @ [\<lparr>tid = nextTimerId s, due = now s, cb = FocusLater (ItemRef ((i + 1) mod length items))\<rparr>]"
    by (simp add: handleItemKeyDown_def Let_def r [OF assms(2)] focusSoon_def setTimeout_def)
  have kl: "timers (handleItemKeyDown items (items ! i) ArrowLeft s) =
           timers s @ [\<lparr>tid = nextTimerId s, due = now s,
                        cb = FocusLater (ItemRef ((i + length items - 1) mod length items))\<rparr>]"
    by (simp add: handleItemKeyDown_def Let_def l [OF assms(2)] focusSoon_def setTimeout_def)
  show ?thesis
    using nextIndex_nth [OF assms] prevIndex_nth [OF assms] r [OF assms(2)] l [OF assms(2)]
      last first kr kl
    by simp
qed

theorem arrow_keys_wrap_witness:
  "distinct (map nav_id scenarioEntries) \<and> (1::nat) < length scenarioEntries \<and>
   scenarioEntries ! 1 = entryB \<and> scenarioEntries ! 0 = entryA \<and>
   arrowTarget scenarioEntries entryB ArrowRight = Some (ItemRef 0) \<and>
   arrowTarget scenarioEntries entryA ArrowLeft = Some (ItemRef 1) \<and>
   arrowTarget scenarioEntries entryB ArrowLeft = Some (ItemRef 0)"
proof -
  have d: "distinct (map nav_id scenarioEntries)"
    by (simp add: scenarioEntries_def entryA_def entryB_def)
  have i: "(1::nat) < length scenarioEntries"
    by (simp add: scenarioEntries_def)
  have e: "scenarioEntries ! 1 = entryB" "scenarioEntries ! 0 = entryA" "length scenarioEntries = 2"
    by (simp_all add: scenarioEntries_def)
  show ?thesis
    using d i e arrow_keys_wrap [OF d i, of initialDesktop] by simp
qed

text \<open>
  Claim C4 as stated fails for entries that share an id: \<open>findIndex\<close> then gives position
  0 for each of them, so \<open>ArrowRight\<close> on the last of three entries targets the second
  entry, not the first, and \<open>ArrowLeft\<close> on the second targets the last, not the first.
\<close>

theorem arrow_keys_wrap_counterexample:
  "length unkeyedEntries = 3 \<and>
   nextIndex unkeyedEntries (unkeyedEntries ! 2) = Some 1 \<and>
   arrowTarget unkeyedEntries (unkeyedEntries ! 2) ArrowRight = Some (ItemRef 1) \<and>
   prevIndex unkeyedEntries (unkeyedEntries ! 1) = Some 2 \<and>
   arrowTarget unkeyedEntries (unkeyedEntries ! 1) ArrowLeft = Some (ItemRef 2)"
  by code_simp

section \<open>Properties of the "more" panel\<close>

lemma map_of_bump:
  "map_of (map (\<lambda>(k, v). if k = g then (k, v @ [x]) else (k, v)) acc) k' =
     (if k' = g then map_option (\<lambda>v. v @ [x]) (map_of acc g) else map_of acc k')"
  by (induction acc) auto

lemma fst_bump:
  "map fst (map (\<lambda>(k, v). if k = g then (k, v @ [x]) else (k, v)) acc) = map fst acc"
  by (induction acc) auto

lemma groupLookup_pushGroup:
  "groupLookup (pushGroup acc x) k =
     groupLookup acc k @ (if dd_group x = Some k then [x] else [])"
  by (auto simp: groupLookup_def pushGroup_def map_of_bump split: option.splits)

lemma keys_pushGroup:
  "set (map fst (pushGroup acc x)) =
     set (map fst acc) \<union> (case dd_group x of None \<Rightarrow> {} | Some g \<Rightarrow> {g})"
proof (cases "dd_group x")
  case None
  then show ?thesis by (simp add: pushGroup_def)
next
  case (Some g)
  show ?thesis
  proof (cases "map_of acc g")
    case None
    with Some show ?thesis by (simp add: pushGroup_def)
  next
    case (Some xs)
    then have "g \<in> set (map fst acc)"
      by (metis map_of_SomeD fst_conv image_eqI set_map)
    with Some \<open>dd_group x = Some g\<close> show ?thesis
      unfolding pushGroup_def by (simp only: option.case fst_bump) auto
  qed
qed

lemma distinct_pushGroup:
  "distinct (map fst acc) \<Longrightarrow> distinct (map fst (pushGroup acc x))"
proof (cases "dd_group x")
  case None
  assume "distinct (map fst acc)"
  with None show ?thesis by (simp add: pushGroup_def)
next
  case (Some g)
  assume d: "distinct (map fst acc)"
  show ?thesis
  proof (cases "map_of acc g")
    case None
    then have "g \<notin> set (map fst acc)"
      by (simp add: map_of_eq_None_iff)
    moreover have "pushGroup acc x = acc @ [(g, [x])]"
      by (simp add: pushGroup_def Some None)
    ultimately show ?thesis using d by simp
  next
    case (Some xs)
    with \<open>dd_group x = Some g\<close> d show ?thesis
      unfolding pushGroup_def by (simp only: option.case fst_bump)
  qed
qed

lemma groupLookup_foldl:
  "groupLookup (foldl pushGroup acc xs) k =
     groupLookup acc k @ filter (\<lambda>x. dd_group x = Some k) xs"
  by (induction xs arbitrary: acc) (simp_all add: groupLookup_pushGroup)

lemma keys_foldl:
  "set (map fst (foldl pushGroup acc xs)) =
     set (map fst acc) \<union> {g. \<exists>x\<in>set xs. dd_group x = Some g}"
proof (induction xs arbitrary: acc)
  case Nil
  show ?case by simp
next
  case (Cons x xs)
  show ?case
    unfolding foldl_Cons Cons.IH keys_pushGroup
    by (auto split: option.splits)
qed

lemma distinct_foldl:
  "distinct (map fst acc) \<Longrightarrow> distinct (map fst (foldl pushGroup acc xs))"
  by (induction xs arbitrary: acc) (simp_all add: distinct_pushGroup)

lemma length_filter_disj:
  "(\<And>x. \<not> (P x \<and> Q x)) \<Longrightarrow>
   length (filter (\<lambda>x. P x \<or> Q x) xs) = length (filter P xs) + length (filter Q xs)"
  by (induction xs) auto

lemma filter_all:
  assumes "length (filter R xs) = length xs"
  shows "\<forall>x\<in>set xs. R x"
proof (rule ccontr)
  assume "\<not> (\<forall>x\<in>set xs. R x)"
  then obtain x where "x \<in> set xs" "\<not> R x" by blast
  then have "length (filter R xs) < length xs" by (rule length_filter_less)
  with assms show False by simp
qed

lemma sort_two:
  assumes "distinct ks" and "set ks = {0, 1 :: int}"
  shows "sort ks = [0, 1]"
proof -
  have "sort ks = sort (remdups ks)" using assms(1) by (simp add: distinct_remdups_id)
  also have "\<dots> = sorted_list_of_set (set ks)"
    by (simp add: sorted_list_of_set_sort_remdups)
  also have "\<dots> = [0, 1]" by (simp add: assms(2))
  finally show ?thesis .
qed

lemma numberToString_01: "numberToString 0 = ''0''" "numberToString 1 = ''1''"
  by code_simp+

lemma defaultSort_01: "defaultSort [0, 1] = [0, 1]"
  by (simp add: defaultSort_def numberToString_01)


text \<open>
  Claim C5. Eight link items, four of group 0 and four of group 1, in any order, render
  as two columns: group 0 and then group 1, each with its four items in the order of the
  input, and no placeholder column.
\<close>

theorem more_groups_scenario:
  assumes "\<forall>i\<in>set items. dd_type i = Link"
    and "length items = 8"
    and "length (filter (\<lambda>i. dd_group i = Some 0) items) = 4"
    and "length (filter (\<lambda>i. dd_group i = Some 1) items) = 4"
  shows "renderMore items =
           Columns [(0, filter (\<lambda>i. dd_group i = Some 0) items),
                    (1, filter (\<lambda>i. dd_group i = Some 1) items)] 0"
proof -
  have "length (filter (\<lambda>i. dd_group i = Some 0 \<or> dd_group i = Some 1) items) = length items"
    using assms(2-4) by (subst length_filter_disj) simp_all
  then have g: "\<forall>i\<in>set items. dd_group i = Some 0 \<or> dd_group i = Some 1"
    by (rule filter_all)
  have m: "filter isMoreLinkItem items = items"
    using assms(1) g by (auto simp: isMoreLinkItem_def filter_id_conv)
  have ne0: "filter (\<lambda>i. dd_group i = Some 0) items \<noteq> []"
    and ne1: "filter (\<lambda>i. dd_group i = Some 1) items \<noteq> []"
    using assms(3,4) by auto
  have "{g. \<exists>x\<in>set items. dd_group x = Some g} = {0, 1}"
  proof -
    from ne0 obtain a where "a \<in> set items" "dd_group a = Some 0"
      by (auto simp: filter_empty_conv)
    moreover from ne1 obtain b where "b \<in> set items" "dd_group b = Some 1"
      by (auto simp: filter_empty_conv)
    ultimately show ?thesis using g by auto
  qed
  then have k: "set (map fst (groupItems items)) = {0, 1}"
    unfolding groupItems_def keys_foldl by simp
  have d: "distinct (map fst (groupItems items))"
    by (simp add: groupItems_def distinct_foldl)
  have idx: "filter isArrayIndex (map fst (groupItems items)) = map fst (groupItems items)"
    "filter (\<lambda>k. \<not> isArrayIndex k) (map fst (groupItems items)) = []"
    using k by (auto simp: filter_id_conv filter_empty_conv isArrayIndex_def)
  have keys: "defaultSort (objectKeys (groupItems items)) = [0, 1]"
    unfolding objectKeys_def idx using sort_two [OF d k] by (simp add: defaultSort_01)
  have l: "groupLookup (groupItems items) j = filter (\<lambda>i. dd_group i = Some j) items" for j
  proof -
    have "groupLookup [] j = []" by (simp add: groupLookup_def)
    then show ?thesis
      unfolding groupItems_def groupLookup_foldl by simp
  qed
  have "items \<noteq> []" using assms(2) by auto
  then show ?thesis
    by (simp add: renderMore_def m keys l Let_def)
qed

theorem more_groups_scenario_witness:
  "map dd_type moreScenario = replicate 8 Link \<and> length moreScenario = 8 \<and>
   length (filter (\<lambda>i. dd_group i = Some 0) moreScenario) = 4 \<and>
   length (filter (\<lambda>i. dd_group i = Some 1) moreScenario) = 4 \<and>
   renderMore moreScenario =
     Columns [(0, [moreLink ''About Us'' ''#about'' 0, moreLink ''Press'' ''#press'' 0, moreLink ''Blog'' ''#blog'' 0,
       moreLink ''Become a Dealer'' ''#become-dealer'' 0]),
              (1, [moreLink ''Support'' ''#support'' 1, moreLink ''Contact Us'' ''#contact-more'' 1, moreLink ''FAQ'' ''#faq'' 1,
       moreLink ''Compare Models'' ''#compare-models-more'' 1])] 0"
proof -
  have t: "\<forall>i\<in>set moreScenario. dd_type i = Link"
    by (simp add: moreScenario_def moreLink_def)
  have n: "length moreScenario = 8"
    by (simp add: moreScenario_def)
  have f0: "filter (\<lambda>i. dd_group i = Some 0) moreScenario =
      [moreLink ''About Us'' ''#about'' 0, moreLink ''Press'' ''#press'' 0, moreLink ''Blog'' ''#blog'' 0,
       moreLink ''Become a Dealer'' ''#become-dealer'' 0]"
    by (simp add: moreScenario_def moreLink_def)
  have f1: "filter (\<lambda>i. dd_group i = Some 1) moreScenario =
      [moreLink ''Support'' ''#support'' 1, moreLink ''Contact Us'' ''#contact-more'' 1, moreLink ''FAQ'' ''#faq'' 1,
       moreLink ''Compare Models'' ''#compare-models-more'' 1]"
    by (simp add: moreScenario_def moreLink_def)
  have l0: "length (filter (\<lambda>i. dd_group i = Some 0) moreScenario) = 4"
    by (simp add: f0)
  have l1: "length (filter (\<lambda>i. dd_group i = Some 1) moreScenario) = 4"
    by (simp add: f1)
  have ts: "map dd_type moreScenario = replicate 8 Link"
    by (simp add: moreScenario_def moreLink_def eval_nat_numeral)
  show ?thesis
    using ts n l0 l1 more_groups_scenario [OF t n l0 l1] by (simp add: f0 f1)
qed

section \<open>Properties of the mobile controller and of unmounting\<close>

lemma mapped_items_leaves:
  "\<forall>item\<in>set (getSubmenuItemsForCategory p c). hasChildren item = Some False \<and> m_back item = None"
  by (auto simp: getSubmenuItemsForCategory_def Let_def mapSourceItem_def mapMoreItem_def)

lemma leafInv_initial: "leafInv initialMobile"
  by (simp add: leafInv_def initialMobile_def)

lemma leafInv_handleMenuToggle: "leafInv s \<Longrightarrow> leafInv (handleMenuToggle s)"
  by (simp add: leafInv_def handleMenuToggle_def Let_def m_setTimeout_def)

lemma leafInv_handleMobileItemClick: "leafInv s \<Longrightarrow> leafInv (handleMobileItemClick p item s)"
  using mapped_items_leaves [of p "m_label item"]
  by (simp add: leafInv_def handleMobileItemClick_def m_setTimeout_def)

lemma leafInv_runMobileCallback: "leafInv s \<Longrightarrow> leafInv (runMobileCallback c s)"
  by (cases c) (auto simp: leafInv_def resetSubmenu_def m_navigateIfReal_def split: option.splits)

lemma leafInv_m_fire: "leafInv s \<Longrightarrow> leafInv (m_fire t s)"
  unfolding m_fire_def by (rule leafInv_runMobileCallback) (simp add: leafInv_def)

lemma leafInv_m_fire_all: "leafInv s \<Longrightarrow> leafInv (foldl (\<lambda>s' t. m_fire t s') s ts)"
  by (induction ts arbitrary: s) (simp_all add: leafInv_m_fire)

lemma leafInv_m_advance: "leafInv s \<Longrightarrow> leafInv (m_advance dt s)"
  using leafInv_m_fire_all [of s "m_dueTimers dt s"] by (simp add: m_advance_def leafInv_def)

lemma leafInv_m_step: "leafInv s \<Longrightarrow> leafInv (m_step p s e)"
  by (cases e)
    (simp_all add: leafInv_handleMenuToggle leafInv_handleMobileItemClick leafInv_m_advance)

lemma leafInv_m_steps: "leafInv s \<Longrightarrow> leafInv (foldl (m_step p) s es)"
  by (induction es arbitrary: s) (simp_all add: leafInv_m_step)

lemma leafInv_m_run: "leafInv (m_run p es)"
  by (simp add: m_run_def leafInv_m_steps leafInv_initial)

text \<open>
  Claim C10. Every item that \<open>getSubmenuItemsForCategory\<close> produces has
  \<open>hasChildren = false\<close> and is not the "Back" item. Hence, in every reachable state that
  shows a submenu, a click on any item of the list takes the leaf branch: it closes the
  drawer, sets the 300 ms timer, and leaves the submenu and its items as they are.
\<close>

theorem submenu_items_are_leaves:
  "(\<forall>item\<in>set (getSubmenuItemsForCategory p c). hasChildren item = Some False \<and> m_back item = None) \<and>
   (activeSubmenu (m_run p es) \<noteq> [] \<and> k < length (currentMobileNavItems p (m_run p es)) \<longrightarrow>
      m_step p (m_run p es) (VisibleItemClick k) =
        m_setTimeout (ResetAndNavigate (m_url (currentMobileNavItems p (m_run p es) ! k))) 300
          ((m_run p es)\<lparr>mobileMenuOpen := False\<rparr>) \<and>
      \<not> mobileMenuOpen (m_step p (m_run p es) (VisibleItemClick k)) \<and>
      activeSubmenu (m_step p (m_run p es) (VisibleItemClick k)) = activeSubmenu (m_run p es) \<and>
      submenuItems (m_step p (m_run p es) (VisibleItemClick k)) = submenuItems (m_run p es))"
proof -
  define s where "s = m_run p es"
  have i: "leafInv s" by (simp add: s_def leafInv_m_run)
  have "m_step p s (VisibleItemClick k) =
          m_setTimeout (ResetAndNavigate (m_url (currentMobileNavItems p s ! k))) 300
            (s\<lparr>mobileMenuOpen := False\<rparr>)"
    if a: "activeSubmenu s \<noteq> []" and k: "k < length (currentMobileNavItems p s)"
  proof -
    from a k have "currentMobileNavItems p s ! k \<in> set (submenuItems s)"
      by (simp add: currentMobileNavItems_def)
    with i have "hasChildren (currentMobileNavItems p s ! k) = Some False"
      "m_back (currentMobileNavItems p s ! k) = None"
      by (auto simp: leafInv_def)
    with k show ?thesis
      by (simp add: handleMobileItemClick_def)
  qed
  then show ?thesis
    using mapped_items_leaves [of p c]
    by (auto simp: s_def [symmetric] m_setTimeout_def)
qed


theorem submenu_items_are_leaves_witness:
  "map hasChildren (getSubmenuItemsForCategory mobileScenario ''More'') = [Some False, Some False] \<and>
   activeSubmenu (m_run mobileScenario [MenuToggle, VisibleItemClick 0]) = ''More'' \<and>
   (1::nat) < length (currentMobileNavItems mobileScenario (m_run mobileScenario [MenuToggle, VisibleItemClick 0])) \<and>
   \<not> mobileMenuOpen (m_step mobileScenario (m_run mobileScenario [MenuToggle, VisibleItemClick 0]) (VisibleItemClick 1)) \<and>
   activeSubmenu (m_step mobileScenario (m_run mobileScenario [MenuToggle, VisibleItemClick 0]) (VisibleItemClick 1)) = ''More''"
proof -
  have m: "map hasChildren (getSubmenuItemsForCategory mobileScenario ''More'') = [Some False, Some False]"
    by code_simp
  have a: "activeSubmenu (m_run mobileScenario [MenuToggle, VisibleItemClick 0]) = ''More''"
    by code_simp
  have k: "(1::nat) < length (currentMobileNavItems mobileScenario (m_run mobileScenario [MenuToggle, VisibleItemClick 0]))"
    by code_simp
  show ?thesis
    using m a k
      submenu_items_are_leaves [of mobileScenario "''More''" "[MenuToggle, VisibleItemClick 0]" 1]
    by (simp add: m_setTimeout_def)
qed

lemma m_run_mounted: "m_mounted (m_run p es)"
  using leafInv_m_run [of p es] by (simp add: leafInv_def)

text \<open>
  Claim C6, as amended. Selecting a leaf (not the "Back" item, without children) in a
  reachable state with no timer pending closes the drawer at once and changes nothing
  else; before 300 ms have passed the submenu, its items and the navigation log are
  unchanged; once 300 ms have passed the submenu and its items are cleared, and
  \<open>onNavigate\<close> has been called exactly once with the leaf's url if that url is present,
  non-empty and not \<open>#\<close>, and not at all otherwise.
\<close>

theorem leaf_selection_deferred_reset:
  assumes "m_back item \<noteq> Some True" and "hasChildren item \<noteq> Some True"
    and "m_timers (m_run p es) = []"
  shows "let s = m_run p es; s1 = handleMobileItemClick p item s
         in \<not> mobileMenuOpen s1 \<and> activeSubmenu s1 = activeSubmenu s \<and>
            submenuItems s1 = submenuItems s \<and> m_navigated s1 = m_navigated s \<and>
            (dt1 < 300 \<longrightarrow>
               activeSubmenu (m_advance dt1 s1) = activeSubmenu s \<and>
               submenuItems (m_advance dt1 s1) = submenuItems s \<and>
               m_navigated (m_advance dt1 s1) = m_navigated s) \<and>
            (300 \<le> dt2 \<longrightarrow>
               activeSubmenu (m_advance dt2 s1) = [] \<and>
               submenuItems (m_advance dt2 s1) = [] \<and>
               m_navigated (m_advance dt2 s1) =
                 m_navigated s @
                   (case m_url item of None \<Rightarrow> []
                    | Some u \<Rightarrow> if u \<noteq> [] \<and> u \<noteq> ''#'' then [u] else []))"
proof -
  define s where "s = m_run p es"
  define s1 where "s1 = handleMobileItemClick p item s"
  have mt: "m_mounted s" by (simp add: s_def m_run_mounted)
  have s1_eq: "s1 = s\<lparr>mobileMenuOpen := False,
      m_timers := [\<lparr>tid = m_nextTimerId s, due = m_now s + 300, cb = ResetAndNavigate (m_url item)\<rparr>],
      m_nextTimerId := Suc (m_nextTimerId s)\<rparr>"
    using assms by (simp add: s1_def s_def handleMobileItemClick_def m_setTimeout_def)
  have early: "m_advance dt1 s1 = s1\<lparr>m_now := m_now s + dt1\<rparr>" if "dt1 < 300"
    using that by (simp add: m_advance_def m_dueTimers_def s1_eq)
  have late: "m_advance dt2 s1 =
      m_navigateIfReal (m_url item)
        (s1\<lparr>m_timers := [], activeSubmenu := [], submenuItems := []\<rparr>)\<lparr>m_now := m_now s + dt2\<rparr>"
    if "300 \<le> dt2"
    using that mt
    by (simp add: m_advance_def m_dueTimers_def s1_eq m_fire_def resetSubmenu_def
        m_navigateIfReal_def split: option.splits)
  have "dt1 < 300 \<longrightarrow>
               activeSubmenu (m_advance dt1 s1) = activeSubmenu s \<and>
               submenuItems (m_advance dt1 s1) = submenuItems s \<and>
               m_navigated (m_advance dt1 s1) = m_navigated s"
    using early by (simp add: s1_eq)
  moreover have "300 \<le> dt2 \<longrightarrow>
               activeSubmenu (m_advance dt2 s1) = [] \<and>
               submenuItems (m_advance dt2 s1) = [] \<and>
               m_navigated (m_advance dt2 s1) =
                 m_navigated s @
                   (case m_url item of None \<Rightarrow> []
                    | Some u \<Rightarrow> if u \<noteq> [] \<and> u \<noteq> ''#'' then [u] else [])"
    using late by (simp add: s1_eq m_navigateIfReal_def split: option.splits)
  ultimately show ?thesis
    by (simp add: Let_def s_def [symmetric] s1_def [symmetric]) (simp add: s1_eq)
qed


theorem leaf_selection_deferred_reset_witness:
  "m_back (mapMoreItem (moreLink ''About Us'' ''#about'' 0)) \<noteq> Some True \<and>
   hasChildren (mapMoreItem (moreLink ''About Us'' ''#about'' 0)) \<noteq> Some True \<and>
   m_timers (m_run mobileScenario [MenuToggle, VisibleItemClick 0]) = [] \<and>
   activeSubmenu (m_run mobileScenario [MenuToggle, VisibleItemClick 0]) = ''More'' \<and>
   (299::nat) < 300 \<and> (300::nat) \<le> 300 \<and>
   activeSubmenu (m_advance 299 (handleMobileItemClick mobileScenario (mapMoreItem (moreLink ''About Us'' ''#about'' 0))
      (m_run mobileScenario [MenuToggle, VisibleItemClick 0]))) = ''More'' \<and>
   m_navigated (m_advance 299 (handleMobileItemClick mobileScenario (mapMoreItem (moreLink ''About Us'' ''#about'' 0))
      (m_run mobileScenario [MenuToggle, VisibleItemClick 0]))) = [] \<and>
   activeSubmenu (m_advance 300 (handleMobileItemClick mobileScenario (mapMoreItem (moreLink ''About Us'' ''#about'' 0))
      (m_run mobileScenario [MenuToggle, VisibleItemClick 0]))) = [] \<and>
   m_navigated (m_advance 300 (handleMobileItemClick mobileScenario (mapMoreItem (moreLink ''About Us'' ''#about'' 0))
      (m_run mobileScenario [MenuToggle, VisibleItemClick 0]))) = [''#about'']"
proof -
  have b: "m_back (mapMoreItem (moreLink ''About Us'' ''#about'' 0)) \<noteq> Some True"
    by (simp add: mapMoreItem_def)
  have c: "hasChildren (mapMoreItem (moreLink ''About Us'' ''#about'' 0)) \<noteq> Some True"
    by (simp add: mapMoreItem_def)
  have u: "m_url (mapMoreItem (moreLink ''About Us'' ''#about'' 0)) = Some ''#about''"
    by (simp add: mapMoreItem_def moreLink_def)
  have t: "m_timers (m_run mobileScenario [MenuToggle, VisibleItemClick 0]) = []"
    by code_simp
  have a: "activeSubmenu (m_run mobileScenario [MenuToggle, VisibleItemClick 0]) = ''More''"
    by code_simp
  have n: "m_navigated (m_run mobileScenario [MenuToggle, VisibleItemClick 0]) = []"
    by code_simp
  show ?thesis
    using b c t a n u
      leaf_selection_deferred_reset [OF b c t, of 299 300]
    by (simp add: Let_def)
qed

text \<open>
  Claim C6 as stated fails: the second item of the "More" submenu is a leaf with the url
  \<open>#\<close>; selecting it closes the drawer and, after the delay, clears the submenu, but
  \<open>onNavigate\<close> is never called. And when the menu was closed and opened again less
  than 300 ms before a leaf is selected, the reset left by the closing clears the submenu
  before the delay of the selection has passed: here 100 ms after it, with the
  selection's own timer still pending.
\<close>

theorem leaf_selection_counterexample:
  "map hasChildren (submenuItems (m_run mobileScenario [MenuToggle, VisibleItemClick 0])) = [Some False, Some False] \<and>
   map m_back (submenuItems (m_run mobileScenario [MenuToggle, VisibleItemClick 0])) = [None, None] \<and>
   map m_url (submenuItems (m_run mobileScenario [MenuToggle, VisibleItemClick 0])) = [Some ''#about'', Some ''#''] \<and>
   activeSubmenu (m_run mobileScenario [MenuToggle, VisibleItemClick 0]) = ''More'' \<and>
   \<not> mobileMenuOpen (m_run mobileScenario [MenuToggle, VisibleItemClick 0, VisibleItemClick 1]) \<and>
   activeSubmenu (m_run mobileScenario [MenuToggle, VisibleItemClick 0, VisibleItemClick 1, MWait 300]) = [] \<and>
   m_timers (m_run mobileScenario [MenuToggle, VisibleItemClick 0, VisibleItemClick 1, MWait 300]) = [] \<and>
   m_navigated (m_run mobileScenario [MenuToggle, VisibleItemClick 0, VisibleItemClick 1, MWait 300]) = [] \<and>
   activeSubmenu (m_run mobileScenario
     [MenuToggle, MenuToggle, MenuToggle, VisibleItemClick 0, MWait 200, VisibleItemClick 0]) = ''More'' \<and>
   activeSubmenu (m_run mobileScenario
     [MenuToggle, MenuToggle, MenuToggle, VisibleItemClick 0, MWait 200, VisibleItemClick 0, MWait 100]) = [] \<and>
   m_timers (m_run mobileScenario
     [MenuToggle, MenuToggle, MenuToggle, VisibleItemClick 0, MWait 200, VisibleItemClick 0, MWait 100]) =
     [\<lparr>tid = 2, due = 500, cb = ResetAndNavigate (Some ''#about'')\<rparr>]"
  by code_simp

text \<open>
  The cleanup of \<open>NavigationContainer\<close>, in a state that satisfies the timer invariant,
  leaves no close timer pending.
\<close>

lemma containerCleanup_cancels:
  "closeTimerInv s \<Longrightarrow> pendingCloseTimers (containerCleanup s) = []"
  by (auto simp: closeTimerInv_def pendingCloseTimers_def containerCleanup_def clearTimeout_def
      filter_empty_conv split: option.splits)

text \<open>
  Claim C8, evaluated on the code. Unmounting \<open>DesktopNavigation\<close> after the pointer has
  left leaves the close timer pending, and it runs 250 ms after it was set. Unmounting
  \<open>MobileNavigation\<close> after a leaf was selected leaves the deferred reset pending, and when
  it runs it calls \<open>onNavigate\<close>.
\<close>

theorem unmount_leaves_timers_pending:
  "timers (unmount (run scenarioEntries [ItemHover entryA, ItemLeave, ItemLeave])) =
     [\<lparr>tid = 2, due = 250, cb = CloseIfNotHovering False False\<rparr>] \<and>
   timers (advance scenarioEntries 249 (unmount (run scenarioEntries [ItemHover entryA, ItemLeave, ItemLeave]))) =
     [\<lparr>tid = 2, due = 250, cb = CloseIfNotHovering False False\<rparr>] \<and>
   timers (advance scenarioEntries 250 (unmount (run scenarioEntries [ItemHover entryA, ItemLeave, ItemLeave]))) = [] \<and>
   m_timers (m_unmount (m_run mobileScenario [MenuToggle, VisibleItemClick 0, VisibleItemClick 0])) =
     [\<lparr>tid = 1, due = 300, cb = ResetAndNavigate (Some ''#about'')\<rparr>] \<and>
   m_navigated (m_unmount (m_run mobileScenario [MenuToggle, VisibleItemClick 0, VisibleItemClick 0])) = [] \<and>
   m_navigated (m_advance 300 (m_unmount (m_run mobileScenario [MenuToggle, VisibleItemClick 0, VisibleItemClick 0]))) =
     [''#about'']"
  by code_simp

end
